theory Spec2Isabelle
  imports Main
begin

section \<open>Calendar arithmetic of the JavaScript \<^verbatim>\<open>Date\<close> object\<close>

text \<open>
  The recurrence code manipulates \<^verbatim>\<open>Date\<close> objects. A \<^verbatim>\<open>Date\<close> is its time value, the
  number of milliseconds since 1970-01-01T00:00Z, modelled as an \<open>int\<close>. The functions below
  follow the abstract operations of the ECMAScript specification (Day, TimeWithinDay,
  DaysInYear, DayFromYear, YearFromTime, MonthFromTime, DateFromTime, MakeDay, LocalTime,
  UTC); they work on day numbers where the specification works on time values of whole days.
  The local time zone of the host is a parameter \<open>tz\<close>: the operation LocalTZA of the
  specification, the offset of local time from UTC in milliseconds. \<open>tz t True\<close> is the
  offset in force at the UTC instant \<open>t\<close>, and \<open>tz t False\<close> the offset used to read \<open>t\<close> as
  a local time; a setter of a \<^verbatim>\<open>Date\<close> reads the offset again at the local time it has
  built. \<open>fixed_offset z\<close> is a zone whose offset never changes, as UTC (\<open>z = 0\<close>).
\<close>

type_synonym time_zone = "int \<Rightarrow> bool \<Rightarrow> int"

definition fixed_offset :: "int \<Rightarrow> time_zone" where
  "fixed_offset z = (\<lambda>t isUTC. z)"

definition msPerDay :: int where
  "msPerDay = 86400000"

definition Day :: "int \<Rightarrow> int" where
  "Day t = t div msPerDay"

definition TimeWithinDay :: "int \<Rightarrow> int" where
  "TimeWithinDay t = t mod msPerDay"

definition DaysInYear :: "int \<Rightarrow> int" where
  "DaysInYear y =
     (if y mod 4 \<noteq> 0 then 365
      else if y mod 100 \<noteq> 0 then 366
      else if y mod 400 \<noteq> 0 then 365
      else 366)"

definition InLeapYear :: "int \<Rightarrow> bool" where
  "InLeapYear y = (DaysInYear y = 366)"

definition DayFromYear :: "int \<Rightarrow> int" where
  "DayFromYear y =
     365 * (y - 1970) + (y - 1969) div 4 - (y - 1901) div 100 + (y - 1601) div 400"

lemma DayFromYear_less: "DayFromYear y < DayFromYear (y + 1)"
proof -
  have a: "(y - 1969) div 4 \<le> (y + 1 - 1969) div 4"
    by (rule zdiv_mono1) simp_all
  have b: "(y + 1 - 1901) div 100 \<le> (y - 1901) div 100 + 1"
    by simp
  have c: "(y - 1601) div 400 \<le> (y + 1 - 1601) div 400"
    by (rule zdiv_mono1) simp_all
  have "p \<le> p' \<Longrightarrow> q' \<le> q + 1 \<Longrightarrow> r \<le> r' \<Longrightarrow>
          365 * (y - 1970) + p - q + r < 365 * (y + 1 - 1970) + p' - q' + r'"
    for p p' q q' r r' :: int
    by simp
  from this [OF a b c] show ?thesis
    unfolding DayFromYear_def .
qed

text \<open>
  \<open>YearFromTime(t)\<close> is the largest year \<open>y\<close> with \<open>DayFromYear y \<le> Day t\<close>. It is found
  by searching upwards from a year that is not after it.
\<close>

function year_search :: "int \<Rightarrow> int \<Rightarrow> int" where
  "year_search d y = (if DayFromYear (y + 1) \<le> d then year_search d (y + 1) else y)"
  by pat_completeness auto
termination
proof (relation "measure (\<lambda>(d, y). nat (d + 1 - DayFromYear (y + 1)))")
  show "wf (measure (\<lambda>(d, y). nat (d + 1 - DayFromYear (y + 1))))"
    by simp
next
  fix d y :: int
  assume "DayFromYear (y + 1) \<le> d"
  moreover have "DayFromYear (y + 1) < DayFromYear (y + 1 + 1)"
    by (rule DayFromYear_less)
  ultimately show "((d, y + 1), (d, y)) \<in> measure (\<lambda>(d, y). nat (d + 1 - DayFromYear (y + 1)))"
    by simp
qed

definition YearFromDay :: "int \<Rightarrow> int" where
  "YearFromDay d =
     year_search d (if 0 \<le> d then 1970 + d div 366 else 1969 + d div 365)"

definition DayWithinYear :: "int \<Rightarrow> int" where
  "DayWithinYear d = d - DayFromYear (YearFromDay d)"

text \<open>Day number within the year of the first day of month \<open>m\<close> (0 = January).\<close>

definition month_start :: "bool \<Rightarrow> int \<Rightarrow> int" where
  "month_start leap m =
     (if m = 0 then 0
      else if m = 1 then 31
      else (if leap then 1 else 0) +
        (if m = 2 then 59
         else if m = 3 then 90
         else if m = 4 then 120
         else if m = 5 then 151
         else if m = 6 then 181
         else if m = 7 then 212
         else if m = 8 then 243
         else if m = 9 then 273
         else if m = 10 then 304
         else 334))"

definition MonthFromDay :: "int \<Rightarrow> int" where
  "MonthFromDay d =
     (let w = DayWithinYear d; l = (if InLeapYear (YearFromDay d) then 1 else 0)
      in if w < 31 then 0
         else if w < 59 + l then 1
         else if w < 90 + l then 2
         else if w < 120 + l then 3
         else if w < 151 + l then 4
         else if w < 181 + l then 5
         else if w < 212 + l then 6
         else if w < 243 + l then 7
         else if w < 273 + l then 8
         else if w < 304 + l then 9
         else if w < 334 + l then 10
         else 11)"

definition DateFromDay :: "int \<Rightarrow> int" where
  "DateFromDay d =
     DayWithinYear d - month_start (InLeapYear (YearFromDay d)) (MonthFromDay d) + 1"

text \<open>
  \<open>MakeDay(year, month, date)\<close>: the day number of the first day of the month, found after
  carrying \<open>month div 12\<close> into the year, plus \<open>date - 1\<close>. A date beyond the end of the month
  overflows into the following month.
\<close>

definition MakeDay :: "int \<Rightarrow> int \<Rightarrow> int \<Rightarrow> int" where
  "MakeDay year month date =
     (let ym = year + month div 12; mn = month mod 12
      in DayFromYear ym + month_start (InLeapYear ym) mn + date - 1)"

definition MakeDate :: "int \<Rightarrow> int \<Rightarrow> int" where
  "MakeDate day time = day * msPerDay + time"

definition LocalTime :: "time_zone \<Rightarrow> int \<Rightarrow> int" where
  "LocalTime tz t = t + tz t True"

definition UTC :: "time_zone \<Rightarrow> int \<Rightarrow> int" where
  "UTC tz t = t - tz t False"

definition getFullYear :: "time_zone \<Rightarrow> int \<Rightarrow> int" where
  "getFullYear tz t = YearFromDay (Day (LocalTime tz t))"

definition getMonth :: "time_zone \<Rightarrow> int \<Rightarrow> int" where
  "getMonth tz t = MonthFromDay (Day (LocalTime tz t))"

definition getDate :: "time_zone \<Rightarrow> int \<Rightarrow> int" where
  "getDate tz t = DateFromDay (Day (LocalTime tz t))"

definition setDate :: "time_zone \<Rightarrow> int \<Rightarrow> int \<Rightarrow> int" where
  "setDate tz t date =
     (let lt = LocalTime tz t
      in UTC tz (MakeDate (MakeDay (YearFromDay (Day lt)) (MonthFromDay (Day lt)) date)
                          (TimeWithinDay lt)))"

definition setMonth :: "time_zone \<Rightarrow> int \<Rightarrow> int \<Rightarrow> int" where
  "setMonth tz t month =
     (let lt = LocalTime tz t
      in UTC tz (MakeDate (MakeDay (YearFromDay (Day lt)) month (DateFromDay (Day lt)))
                          (TimeWithinDay lt)))"


text \<open>\<^verbatim>\<open>new Date(year, month, date)\<close>: local midnight of the given day.\<close>

definition Date_local :: "time_zone \<Rightarrow> int \<Rightarrow> int \<Rightarrow> int \<Rightarrow> int" where
  "Date_local tz year month date = UTC tz (MakeDate (MakeDay year month date) 0)"

text \<open>
  A calendar date string \<^verbatim>\<open>YYYY-MM-DD\<close> is modelled by its day number. \<^verbatim>\<open>new Date(s)\<close> on
  such a string is UTC midnight of that day, and \<^verbatim>\<open>d.toISOString().split('T')[0]\<close> is the
  UTC day of \<open>d\<close>. \<open>ymd\<close> writes a concrete date (months counted from 1).
\<close>

type_synonym date = int

definition Date_parse :: "date \<Rightarrow> int" where
  "Date_parse s = MakeDate s 0"

definition toISODate :: "int \<Rightarrow> date" where
  "toISODate t = Day t"

definition ymd :: "int \<Rightarrow> int \<Rightarrow> int \<Rightarrow> date" where
  "ymd y m d = MakeDay y (m - 1) d"

text \<open>A time of day \<^verbatim>\<open>HH:MM\<close> is modelled by its milliseconds after midnight.\<close>

definition hhmm :: "int \<Rightarrow> int \<Rightarrow> int" where
  "hhmm h m = (h * 60 + m) * 60000"

section \<open>Data model\<close>

datatype priority = Low | Medium | High

datatype recurrence = RNone | Daily | Weekly | Monthly

datatype sync_status = Synced | Pending | Updated | Deleted

text \<open>
  \<^verbatim>\<open>OfflineTask\<close> (lib/indexedDB). The objects built by the recurrence hook
  (\<^verbatim>\<open>RecurringTaskInstance\<close>) have the same fields except \<^verbatim>\<open>completed\<close>, which they
  leave undefined; an undefined \<^verbatim>\<open>completed\<close> or \<^verbatim>\<open>offline_created\<close> is read by the code
  only for its truthiness and is modelled as \<open>False\<close>. Timestamps are milliseconds.
\<close>

record OfflineTask =
  task_id :: string
  title :: string
  description :: "string option"
  due_date :: date
  due_time :: int
  priority :: priority
  completed :: bool
  user_id :: string
  list_id :: "string option"
  email_reminder :: bool
  push_notification :: bool
  notification_time :: string
  recurrence :: recurrence
  recurrence_id :: "string option"
  is_recurring_parent :: bool
  sync_status :: sync_status
  created_at :: int
  updated_at :: int
  offline_created :: bool

record OfflineTaskList =
  list_key :: string
  list_name :: string
  list_user_id :: string
  list_sync_status :: sync_status
  list_created_at :: int
  list_updated_at :: int
  list_offline_created :: bool

section \<open>Local durable store (IndexedDB manager)\<close>

text \<open>
  An object store keyed by \<^verbatim>\<open>id\<close> is a list of records with distinct keys. \<^verbatim>\<open>put\<close>
  replaces the record with the same key or adds the record, \<^verbatim>\<open>delete\<close> removes the key,
  and \<^verbatim>\<open>index('user_id').getAll(userId)\<close> returns the records of that user.
\<close>

definition store_put :: "('a \<Rightarrow> string) \<Rightarrow> 'a \<Rightarrow> 'a list \<Rightarrow> 'a list" where
  "store_put key x xs =
     (if key x \<in> key ` set xs then map (\<lambda>y. if key y = key x then x else y) xs
      else xs @ [x])"

definition store_delete :: "('a \<Rightarrow> string) \<Rightarrow> string \<Rightarrow> 'a list \<Rightarrow> 'a list" where
  "store_delete key k xs = filter (\<lambda>y. key y \<noteq> k) xs"

definition store_get :: "('a \<Rightarrow> string) \<Rightarrow> string \<Rightarrow> 'a list \<Rightarrow> 'a option" where
  "store_get key k xs = find (\<lambda>y. key y = k) xs"


definition getTasks :: "string \<Rightarrow> OfflineTask list \<Rightarrow> OfflineTask list" where
  "getTasks userId tasks =
     filter (\<lambda>task. sync_status task \<noteq> Deleted) (filter (\<lambda>task. user_id task = userId) tasks)"

definition getTask :: "string \<Rightarrow> OfflineTask list \<Rightarrow> OfflineTask option" where
  "getTask taskId tasks =
     (case store_get task_id taskId tasks of
        Some task \<Rightarrow> if sync_status task \<noteq> Deleted then Some task else None
      | None \<Rightarrow> None)"

definition deleteTask :: "string \<Rightarrow> OfflineTask list \<Rightarrow> OfflineTask list" where
  "deleteTask taskId tasks = store_delete task_id taskId tasks"

definition getTaskLists :: "string \<Rightarrow> OfflineTaskList list \<Rightarrow> OfflineTaskList list" where
  "getTaskLists userId taskLists =
     filter (\<lambda>l. list_sync_status l \<noteq> Deleted)
       (filter (\<lambda>l. list_user_id l = userId) taskLists)"

text \<open>
  The sync queue. \<^verbatim>\<open>data\<close> is the snapshot of the task or of the task list the
  mutation is about. Fresh identifiers (\<^verbatim>\<open>crypto.randomUUID()\<close>) and clock readings
  (\<^verbatim>\<open>Date.now()\<close>, \<^verbatim>\<open>new Date()\<close>) are parameters of the functions that take them.
\<close>

datatype entity_type = EntityTask | EntityTaskList

datatype action = Create | Update | Delete

datatype payload = TaskData OfflineTask | ListData OfflineTaskList

record SyncQueueItem =
  queue_id :: string
  queue_type :: entity_type
  queue_action :: action
  queue_data :: payload
  queue_timestamp :: int
  retries :: int

definition addToSyncQueue ::
  "entity_type \<Rightarrow> action \<Rightarrow> payload \<Rightarrow> string \<Rightarrow> int \<Rightarrow> SyncQueueItem list \<Rightarrow> SyncQueueItem list"
where
  "addToSyncQueue ty act dat uuid now queue =
     store_put queue_id
       \<lparr>queue_id = uuid, queue_type = ty, queue_action = act, queue_data = dat,
        queue_timestamp = now, retries = 0\<rparr> queue"

definition getSyncQueue :: "SyncQueueItem list \<Rightarrow> SyncQueueItem list" where
  "getSyncQueue queue = queue"

definition removeSyncQueueItem :: "string \<Rightarrow> SyncQueueItem list \<Rightarrow> SyncQueueItem list" where
  "removeSyncQueueItem itemId queue = store_delete queue_id itemId queue"

definition updateSyncQueueItem :: "SyncQueueItem \<Rightarrow> SyncQueueItem list \<Rightarrow> SyncQueueItem list" where
  "updateSyncQueueItem item queue = store_put queue_id item queue"

record LocalDB =
  db_tasks :: "OfflineTask list"
  db_task_lists :: "OfflineTaskList list"
  db_sync_queue :: "SyncQueueItem list"

section \<open>Sync drain of the client (useOfflineSync)\<close>

text \<open>
  The remote store as the hook reaches it through the Supabase client: the tables
  \<^verbatim>\<open>tasks\<close> and \<^verbatim>\<open>task_lists\<close>.
\<close>

record RemoteDB =
  remote_tasks :: "OfflineTask list"
  remote_task_lists :: "OfflineTaskList list"

text \<open>
  An awaited statement of the Supabase client, \<^verbatim>\<open>await supabase.from(t).insert(data)\<close> and
  the like. The client library is not part of the repository, so how the promise of a
  statement settles is a parameter. Either the promise is rejected, and \<^verbatim>\<open>await\<close> throws,
  or it resolves to a response object \<^verbatim>\<open>{ data, error }\<close>: \<open>Resolved None\<close> when the service
  has carried the statement out, \<open>Resolved (Some e)\<close> when the service has refused it and
  answers with the error \<open>e\<close>. The other code of the repository reads the answer in this
  way (\<^verbatim>\<open>if (tasksError) throw tasksError\<close>, \<^verbatim>\<open>if (error) throw error\<close>).
\<close>

datatype supabase_result = Resolved "string option" | Rejected string

text \<open>
  What the statement of a queue entry does to the remote tables when the service carries
  it out: \<^verbatim>\<open>insert(data)\<close>, \<^verbatim>\<open>update(data).eq('id', data.id)\<close> or
  \<^verbatim>\<open>delete().eq('id', data.id)\<close> on the table of the entry's type. A snapshot that is not of
  the entry's type writes nothing here.
\<close>

definition remote_write :: "SyncQueueItem \<Rightarrow> RemoteDB \<Rightarrow> RemoteDB" where
  "remote_write item remote =
     (case (queue_type item, queue_data item) of
        (EntityTask, TaskData dat) \<Rightarrow>
          (case queue_action item of
             Create \<Rightarrow> remote\<lparr>remote_tasks := remote_tasks remote @ [dat]\<rparr>
           | Update \<Rightarrow>
               remote\<lparr>remote_tasks :=
                 map (\<lambda>row. if task_id row = task_id dat then dat else row) (remote_tasks remote)\<rparr>
           | Delete \<Rightarrow>
               remote\<lparr>remote_tasks :=
                 filter (\<lambda>row. task_id row \<noteq> task_id dat) (remote_tasks remote)\<rparr>)
      | (EntityTaskList, ListData dat) \<Rightarrow>
          (case queue_action item of
             Create \<Rightarrow> remote\<lparr>remote_task_lists := remote_task_lists remote @ [dat]\<rparr>
           | Update \<Rightarrow>
               remote\<lparr>remote_task_lists :=
                 map (\<lambda>row. if list_key row = list_key dat then dat else row)
                   (remote_task_lists remote)\<rparr>
           | Delete \<Rightarrow>
               remote\<lparr>remote_task_lists :=
                 filter (\<lambda>row. list_key row \<noteq> list_key dat) (remote_task_lists remote)\<rparr>)
      | _ \<Rightarrow> remote)"

text \<open>
  \<^verbatim>\<open>processSyncItem\<close> awaits the statement of the entry and does not look at the response:
  it throws (\<open>Inl\<close>) only when the promise is rejected, and returns normally also when the
  service has refused the write. It compares no timestamps.
\<close>

definition processSyncItem ::
  "(SyncQueueItem \<Rightarrow> supabase_result) \<Rightarrow> SyncQueueItem \<Rightarrow> RemoteDB \<Rightarrow> string + RemoteDB"
where
  "processSyncItem supabase item remote =
     (case supabase item of
        Rejected e \<Rightarrow> Inl e
      | Resolved response \<Rightarrow>
          (case response of
             None \<Rightarrow> Inr (remote_write item remote)
           | Some e \<Rightarrow> Inr remote))"

text \<open>
  \<^verbatim>\<open>syncOfflineData\<close> takes a snapshot of the queue and processes its items one by one;
  the state is the queue, the console output (kept as a log) and the remote tables. The
  refresh of the local cache from the remote store that follows the loop is not part of
  this function.
\<close>

datatype log_entry =
  ErrorProcessing string
| WarnMaxRetries SyncQueueItem

fun drain_items ::
  "(SyncQueueItem \<Rightarrow> supabase_result) \<Rightarrow> SyncQueueItem list \<Rightarrow>
   SyncQueueItem list \<times> log_entry list \<times> RemoteDB \<Rightarrow>
   SyncQueueItem list \<times> log_entry list \<times> RemoteDB"
where
  "drain_items supabase [] st = st"
| "drain_items supabase (item # rest) (queue, log, remote) =
     (case processSyncItem supabase item remote of
        Inr remote' \<Rightarrow>
          drain_items supabase rest (removeSyncQueueItem (queue_id item) queue, log, remote')
      | Inl error \<Rightarrow>
          (let item' = item\<lparr>retries := retries item + 1\<rparr>
           in if retries item' \<ge> 3 then
                drain_items supabase rest
                  (removeSyncQueueItem (queue_id item') queue,
                   log @ [ErrorProcessing error, WarnMaxRetries item'], remote)
              else
                drain_items supabase rest
                  (updateSyncQueueItem item' queue, log @ [ErrorProcessing error], remote)))"

definition syncOfflineData ::
  "bool \<Rightarrow> bool \<Rightarrow> bool \<Rightarrow> (SyncQueueItem \<Rightarrow> supabase_result) \<Rightarrow> SyncQueueItem list \<Rightarrow>
   RemoteDB \<Rightarrow> SyncQueueItem list \<times> log_entry list \<times> RemoteDB"
where
  "syncOfflineData user isOnline isSyncing supabase queue remote =
     (if \<not> user \<or> \<not> isOnline \<or> isSyncing then (queue, [], remote)
      else drain_items supabase (getSyncQueue queue) (queue, [], remote))"

section \<open>Recurrence expansion of the client (useRecurringTasks)\<close>

definition getInstanceCount :: "recurrence \<Rightarrow> nat" where
  "getInstanceCount recurrenceType =
     (case recurrenceType of Daily \<Rightarrow> 30 | Weekly \<Rightarrow> 52 | Monthly \<Rightarrow> 12 | RNone \<Rightarrow> 0)"

text \<open>
  The \<^verbatim>\<open>switch\<close> of the loop body: the date of instance \<open>i\<close>, computed from the base date
  each time.
\<close>

definition instanceDate :: "time_zone \<Rightarrow> recurrence \<Rightarrow> int \<Rightarrow> int \<Rightarrow> int" where
  "instanceDate tz recurrenceType baseDate i =
     (case recurrenceType of
        Daily \<Rightarrow> setDate tz baseDate (getDate tz baseDate + i)
      | Weekly \<Rightarrow> setDate tz baseDate (getDate tz baseDate + i * 7)
      | Monthly \<Rightarrow> setMonth tz baseDate (getMonth tz baseDate + i)
      | RNone \<Rightarrow> baseDate)"

definition new_instance ::
  "OfflineTask \<Rightarrow> string \<Rightarrow> string \<Rightarrow> string \<Rightarrow> int \<Rightarrow> date \<Rightarrow> OfflineTask"
where
  "new_instance src user uuid parentId now dueDate =
     \<lparr>task_id = uuid,
      title = title src,
      description = description src,
      due_date = dueDate,
      due_time = due_time src,
      priority = priority src,
      completed = False,
      user_id = user,
      list_id = list_id src,
      email_reminder = email_reminder src,
      push_notification = push_notification src,
      notification_time = notification_time src,
      recurrence = RNone,
      recurrence_id = Some parentId,
      is_recurring_parent = False,
      sync_status = Pending,
      created_at = now,
      updated_at = now,
      offline_created = True\<rparr>"

text \<open>
  The loop \<^verbatim>\<open>for (let i = 1; i <= instanceCount; i++)\<close>; the first argument counts the
  iterations that remain. \<^verbatim>\<open>break\<close> ends the list.
\<close>

fun instances_from ::
  "nat \<Rightarrow> int \<Rightarrow> time_zone \<Rightarrow> recurrence \<Rightarrow> int \<Rightarrow> int \<Rightarrow> (int \<Rightarrow> string) \<Rightarrow> string \<Rightarrow>
   int \<Rightarrow> OfflineTask \<Rightarrow> OfflineTask list"
where
  "instances_from 0 i tz recurrenceType baseDate oneYearFromNow uuid user now parentTask = []"
| "instances_from (Suc n) i tz recurrenceType baseDate oneYearFromNow uuid user now parentTask =
     (let d = instanceDate tz recurrenceType baseDate i
      in if d > oneYearFromNow then []
         else new_instance parentTask user (uuid i) (task_id parentTask) now (toISODate d)
              # instances_from n (i + 1) tz recurrenceType baseDate oneYearFromNow uuid user now
                  parentTask)"

definition generateRecurringInstances ::
  "string option \<Rightarrow> time_zone \<Rightarrow> int \<Rightarrow> (int \<Rightarrow> string) \<Rightarrow> OfflineTask \<Rightarrow> recurrence \<Rightarrow>
   nat \<Rightarrow> OfflineTask list"
where
  "generateRecurringInstances user tz now uuid parentTask recurrenceType instanceCount =
     (case user of
        None \<Rightarrow> []
      | Some u \<Rightarrow>
          if recurrenceType = RNone then []
          else
            (let baseDate = Date_parse (due_date parentTask);
                 oneYearFromNow =
                   Date_local tz (getFullYear tz now + 1) (getMonth tz now) (getDate tz now)
             in instances_from instanceCount 1 tz recurrenceType baseDate oneYearFromNow uuid u now
                  parentTask))"


definition nextDate :: "time_zone \<Rightarrow> recurrence \<Rightarrow> int \<Rightarrow> int" where
  "nextDate tz recurrenceType currentDate =
     (case recurrenceType of
        Daily \<Rightarrow> setDate tz currentDate (getDate tz currentDate + 1)
      | Weekly \<Rightarrow> setDate tz currentDate (getDate tz currentDate + 7)
      | Monthly \<Rightarrow> setMonth tz currentDate (getMonth tz currentDate + 1)
      | RNone \<Rightarrow> currentDate)"






text \<open>
  \<^verbatim>\<open>deleteRecurringSeries\<close>: the loop deletes each task of the series and queues its
  deletion; \<open>quuid k\<close> is the identifier drawn for the \<open>k\<close>-th queue entry.
\<close>

fun delete_each ::
  "(nat \<Rightarrow> string) \<Rightarrow> int \<Rightarrow> nat \<Rightarrow> OfflineTask list \<Rightarrow> LocalDB \<Rightarrow> LocalDB"
where
  "delete_each quuid now k [] db = db"
| "delete_each quuid now k (task # rest) db =
     delete_each quuid now (Suc k) rest
       (db\<lparr>db_tasks := deleteTask (task_id task) (db_tasks db),
           db_sync_queue :=
             addToSyncQueue EntityTask Delete (TaskData task) (quuid k) now (db_sync_queue db)\<rparr>)"

definition deleteRecurringSeries ::
  "string option \<Rightarrow> (nat \<Rightarrow> string) \<Rightarrow> int \<Rightarrow> string \<Rightarrow> bool \<Rightarrow> LocalDB \<Rightarrow> LocalDB"
where
  "deleteRecurringSeries user quuid now taskId isParent db =
     (case user of
        None \<Rightarrow> db
      | Some u \<Rightarrow>
          (let allTasks = getTasks u (db_tasks db);
               parentId =
                 (if isParent then Some taskId
                  else (case find (\<lambda>t. task_id t = taskId) allTasks of
                          Some t \<Rightarrow> recurrence_id t
                        | None \<Rightarrow> None))
           in case parentId of
                None \<Rightarrow> db
              | Some pid \<Rightarrow>
                  if pid = [] then db
                  else
                    (let seriesToDelete =
                           filter (\<lambda>task. task_id task = pid \<or> recurrence_id task = Some pid)
                             allTasks
                     in delete_each quuid now 0 seriesToDelete db)))"

text \<open>
  A task belongs to the series of the parent \<open>pid\<close> when its id or its \<^verbatim>\<open>recurrence_id\<close>
  is \<open>pid\<close>: the test of the filter above.
\<close>

definition series_member :: "string \<Rightarrow> OfflineTask \<Rightarrow> bool" where
  "series_member pid task = (task_id task = pid \<or> recurrence_id task = Some pid)"

section \<open>Reminder scheduling of the client (useNotifications, useEmailNotifications)\<close>

text \<open>
  \<^verbatim>\<open>timingMap[timing] || dflt\<close>. \<^verbatim>\<open>timingMap\<close> is an object literal, so a property
  read also finds the members that every object inherits from \<^verbatim>\<open>Object.prototype\<close>;
  their values are functions (an object for \<^verbatim>\<open>__proto__\<close>), which are truthy, so \<^verbatim>\<open>||\<close>
  keeps them. All twelve own values are non-zero numbers, hence truthy as well.
\<close>

datatype jsval = JNumber int | JInherited string

definition timingMap :: "(string \<times> int) list" where
  "timingMap =
     [(''3min'', 3 * 60 * 1000),
      (''5min'', 5 * 60 * 1000),
      (''10min'', 10 * 60 * 1000),
      (''15min'', 15 * 60 * 1000),
      (''20min'', 20 * 60 * 1000),
      (''25min'', 25 * 60 * 1000),
      (''30min'', 30 * 60 * 1000),
      (''45min'', 45 * 60 * 1000),
      (''50min'', 50 * 60 * 1000),
      (''1hour'', 60 * 60 * 1000),
      (''2hours'', 2 * 60 * 60 * 1000),
      (''1day'', 24 * 60 * 60 * 1000)]"

definition Object_prototype_members :: "string list" where
  "Object_prototype_members =
     [''constructor'', ''__defineGetter__'', ''__defineSetter__'', ''hasOwnProperty'',
      ''__lookupGetter__'', ''__lookupSetter__'', ''isPrototypeOf'', ''propertyIsEnumerable'',
      ''toString'', ''valueOf'', ''__proto__'', ''toLocaleString'']"

definition timingMap_or :: "string \<Rightarrow> int \<Rightarrow> jsval" where
  "timingMap_or timing dflt =
     (case map_of timingMap timing of
        Some n \<Rightarrow> if n \<noteq> 0 then JNumber n else JNumber dflt
      | None \<Rightarrow>
          if timing \<in> set Object_prototype_members then JInherited timing else JNumber dflt)"

text \<open>The hook of the push reminders: \<^verbatim>\<open>// Default to 10 minutes\<close>.\<close>

definition getNotificationDelay :: "string \<Rightarrow> jsval" where
  "getNotificationDelay timing = timingMap_or timing (10 * 60 * 1000)"

text \<open>The hook of the e-mail reminders: \<^verbatim>\<open>// Default to 1 hour\<close>.\<close>

definition getNotificationDelay_email :: "string \<Rightarrow> jsval" where
  "getNotificationDelay_email timing = timingMap_or timing (60 * 60 * 1000)"

text \<open>
  \<^verbatim>\<open>t - delay\<close> on numbers; a function or an object converts to \<^verbatim>\<open>NaN\<close>, which is
  \<open>None\<close>. Every comparison with \<^verbatim>\<open>NaN\<close> is false.
\<close>

definition js_minus :: "int \<Rightarrow> jsval \<Rightarrow> int option" where
  "js_minus t v = (case v of JNumber n \<Rightarrow> Some (t - n) | JInherited m \<Rightarrow> None)"

definition js_le :: "int option \<Rightarrow> int \<Rightarrow> bool" where
  "js_le a b = (case a of Some x \<Rightarrow> x \<le> b | None \<Rightarrow> False)"

text \<open>\<^verbatim>\<open>task.notification_time || dflt\<close>: the empty string is falsy.\<close>

definition string_or :: "string \<Rightarrow> string \<Rightarrow> string" where
  "string_or s dflt = (if s \<noteq> [] then s else dflt)"

text \<open>\<^verbatim>\<open>new Date(`${task.due_date}T${task.due_time}`)\<close>: a local date and time.\<close>

definition taskDateTime :: "time_zone \<Rightarrow> OfflineTask \<Rightarrow> int" where
  "taskDateTime tz task = UTC tz (MakeDate (due_date task) (due_time task))"

text \<open>
  The lead interval that each option of the closed set of the specification denotes, in
  minutes.
\<close>

definition lead_time_minutes :: "string \<Rightarrow> int option" where
  "lead_time_minutes lead =
     (if lead = ''3min'' then Some 3
      else if lead = ''5min'' then Some 5
      else if lead = ''10min'' then Some 10
      else if lead = ''15min'' then Some 15
      else if lead = ''20min'' then Some 20
      else if lead = ''25min'' then Some 25
      else if lead = ''30min'' then Some 30
      else if lead = ''45min'' then Some 45
      else if lead = ''50min'' then Some 50
      else if lead = ''1hour'' then Some 60
      else if lead = ''2hours'' then Some 120
      else if lead = ''1day'' then Some 1440
      else None)"

text \<open>
  A scheduled reminder. \<^verbatim>\<open>scheduledTime\<close> is a JavaScript number: \<open>None\<close> is \<^verbatim>\<open>NaN\<close>.
  The rendered \<^verbatim>\<open>title\<close> and \<^verbatim>\<open>body\<close> texts are left out.
\<close>

datatype reminder_status = ReminderPending | ReminderSynced | ReminderCancelled

record ScheduledNotification =
  reminder_id :: string
  taskId :: string
  scheduledTime :: "int option"
  notificationTime :: string
  taskData :: OfflineTask
  reminder_status :: reminder_status

text \<open>
  The state of the notification hook: the list \<^verbatim>\<open>scheduledNotifications\<close> (kept in the
  component state and mirrored in the app-state store), the callbacks registered with
  \<^verbatim>\<open>setTimeout\<close> and not yet run (each with the instant it is due at), the notification
  permission, and the browser notifications displayed so far. The hook keeps no handle
  of a timer it registers.
\<close>

record NotificationHook =
  scheduledNotifications :: "ScheduledNotification list"
  timers :: "(int \<times> ScheduledNotification) list"
  permission_granted :: bool
  shown :: "ScheduledNotification list"

definition saveScheduledNotifications ::
  "ScheduledNotification list \<Rightarrow> NotificationHook \<Rightarrow> NotificationHook"
where
  "saveScheduledNotifications notifications st = st\<lparr>scheduledNotifications := notifications\<rparr>"

definition showTaskNotification :: "ScheduledNotification \<Rightarrow> NotificationHook \<Rightarrow> NotificationHook" where
  "showTaskNotification notification st =
     (if \<not> permission_granted st then st
      else
        (let st1 = st\<lparr>shown := shown st @ [notification]\<rparr>
         in saveScheduledNotifications
              (filter (\<lambda>n. reminder_id n \<noteq> reminder_id notification) (scheduledNotifications st1))
              st1))"

text \<open>
  \<^verbatim>\<open>scheduleLocalNotification\<close>. \<^verbatim>\<open>setTimeout\<close> with a delay of \<^verbatim>\<open>NaN\<close> runs the
  callback as soon as possible.
\<close>

definition scheduleLocalNotification ::
  "int \<Rightarrow> ScheduledNotification \<Rightarrow> NotificationHook \<Rightarrow> NotificationHook"
where
  "scheduleLocalNotification now notification st =
     (case scheduledTime notification of
        Some t \<Rightarrow>
          if t - now \<le> 0 then showTaskNotification notification st
          else st\<lparr>timers := timers st @ [(now + (t - now), notification)]\<rparr>
      | None \<Rightarrow> st\<lparr>timers := timers st @ [(now, notification)]\<rparr>)"

text \<open>
  \<^verbatim>\<open>scheduleTaskNotification(task, customTime?)\<close>; an absent or zero \<^verbatim>\<open>customTime\<close> is
  falsy.
\<close>

definition scheduleTaskNotification ::
  "time_zone \<Rightarrow> int \<Rightarrow> string \<Rightarrow> OfflineTask \<Rightarrow> int option \<Rightarrow> NotificationHook \<Rightarrow>
   NotificationHook"
where
  "scheduleTaskNotification tz now uuid task customTime st =
     (if \<not> push_notification task \<or> completed task then st
      else
        (let notificationDelay = getNotificationDelay (string_or (notification_time task) ''10min'');
             computed = js_minus (taskDateTime tz task) notificationDelay;
             reminderTime =
               (case customTime of
                  Some c \<Rightarrow> if c \<noteq> 0 then Some c else computed
                | None \<Rightarrow> computed)
         in if js_le reminderTime now then st
            else
              (let scheduledNotification =
                     \<lparr>reminder_id = uuid,
                      taskId = task_id task,
                      scheduledTime = reminderTime,
                      notificationTime = string_or (notification_time task) ''10min'',
                      taskData = task,
                      reminder_status = ReminderPending\<rparr>;
                   st1 = saveScheduledNotifications
                           (scheduledNotifications st @ [scheduledNotification]) st
               in scheduleLocalNotification now scheduledNotification st1)))"

definition cancelTaskNotifications :: "string \<Rightarrow> NotificationHook \<Rightarrow> NotificationHook" where
  "cancelTaskNotifications tid st =
     saveScheduledNotifications (filter (\<lambda>n. taskId n \<noteq> tid) (scheduledNotifications st)) st"

definition updateTaskNotification ::
  "time_zone \<Rightarrow> int \<Rightarrow> string \<Rightarrow> OfflineTask \<Rightarrow> NotificationHook \<Rightarrow> NotificationHook"
where
  "updateTaskNotification tz now uuid task st =
     (let st1 = cancelTaskNotifications (task_id task) st
      in if push_notification task \<and> \<not> completed task
         then scheduleTaskNotification tz now uuid task None st1
         else st1)"

text \<open>
  The event loop at instant \<open>now\<close>: every registered callback that is due runs, in the
  order of registration, and leaves the set of pending timers.
\<close>

definition run_due_timers :: "int \<Rightarrow> NotificationHook \<Rightarrow> NotificationHook" where
  "run_due_timers now st =
     fold (\<lambda>(due, notification). showTaskNotification notification)
       (filter (\<lambda>(due, notification). due \<le> now) (timers st))
       (st\<lparr>timers := filter (\<lambda>(due, notification). \<not> due \<le> now) (timers st)\<rparr>)"

section \<open>Remote task service (Express server)\<close>

text \<open>
  The table \<^verbatim>\<open>tasks\<close> of the remote store is a list of rows with distinct ids; a row has
  the columns of a task. The queries are the ones the handlers issue; the table itself
  never fails.
\<close>

record Conflict =
  conflict_id :: string
  conflict_type :: entity_type
  conflict_reason :: string
  serverTimestamp :: int
  clientTimestamp :: int

record 'e SyncResults =
  processed :: nat
  errors :: "'e list"
  conflicts :: "Conflict list"

text \<open>
  \<^verbatim>\<open>handleTaskUpdate(data, userId, clientTimestamp, results)\<close>. The timestamps are
  compared as \<^verbatim>\<open>Date\<close> values, that is as milliseconds. \<open>now\<close> is the clock of the server.
\<close>

definition handleTaskUpdate ::
  "OfflineTask \<Rightarrow> string \<Rightarrow> int \<Rightarrow> int \<Rightarrow> 'e SyncResults \<times> OfflineTask list \<Rightarrow>
   'e SyncResults \<times> OfflineTask list"
where
  "handleTaskUpdate dat userId clientTs now st =
     (let results = fst st; table = snd st;
          existingTask = find (\<lambda>row. task_id row = task_id dat \<and> user_id row = userId) table;
          conflict =
            (case existingTask of
               Some row \<Rightarrow> updated_at row > clientTs
             | None \<Rightarrow> False)
      in if conflict then
           (results\<lparr>conflicts := conflicts results @
              [\<lparr>conflict_id = task_id dat,
                conflict_type = EntityTask,
                conflict_reason = ''Server version is newer'',
                serverTimestamp = (case existingTask of Some row \<Rightarrow> updated_at row | None \<Rightarrow> 0),
                clientTimestamp = clientTs\<rparr>]\<rparr>,
            table)
         else
           (let updates = dat\<lparr>sync_status := Synced, updated_at := now\<rparr>
            in (results,
                map (\<lambda>row. if task_id row = task_id dat \<and> user_id row = userId
                            then updates else row) table)))"

text \<open>
  \<^verbatim>\<open>DELETE /api/tasks/:id\<close>. The answer is the HTTP status and the table afterwards.
\<close>

definition delete_task_endpoint :: "string \<Rightarrow> string \<Rightarrow> OfflineTask list \<Rightarrow> nat \<times> OfflineTask list" where
  "delete_task_endpoint ident userId table =
     (case find (\<lambda>row. task_id row = ident \<and> user_id row = userId) table of
        None \<Rightarrow> (404, table)
      | Some taskToDelete \<Rightarrow>
          if is_recurring_parent taskToDelete then
            (204, filter (\<lambda>row. \<not> (user_id row = userId \<and>
                                      (task_id row = ident \<or> recurrence_id row = Some ident)))
                    table)
          else
            (204, filter (\<lambda>row. \<not> (task_id row = ident \<and> user_id row = userId)) table))"

text \<open>
  \<^verbatim>\<open>calculateNotificationTime\<close> of the server:
  \<^verbatim>\<open>timingMap[notificationTime] || timingMap['10min']\<close>, subtracted from the due time.
\<close>

definition calculateNotificationTime ::
  "time_zone \<Rightarrow> date \<Rightarrow> int \<Rightarrow> string \<Rightarrow> int option"
where
  "calculateNotificationTime tz dueDate dueTime notifTime =
     js_minus (UTC tz (MakeDate dueDate dueTime)) (timingMap_or notifTime (10 * 60 * 1000))"

section \<open>Concrete data for the examples\<close>

text \<open>
  A task as in the scenarios of the specification: due on 2024-06-03 at 09:00, with a
  reminder one hour before. Timestamps in the examples are small numbers.
\<close>

definition example_task :: OfflineTask where
  "example_task =
     \<lparr>task_id = ''task-1'', title = ''Standup'', description = None,
      due_date = ymd 2024 6 3, due_time = hhmm 9 0, priority = Medium, completed = False,
      user_id = ''user-1'', list_id = None, email_reminder = False, push_notification = True,
      notification_time = ''1hour'', recurrence = RNone, recurrence_id = None,
      is_recurring_parent = False, sync_status = Synced, created_at = 0, updated_at = 0,
      offline_created = False\<rparr>"

definition example_item :: SyncQueueItem where
  "example_item =
     \<lparr>queue_id = ''entry-1'', queue_type = EntityTask, queue_action = Update,
      queue_data = TaskData example_task, queue_timestamp = 0, retries = 0\<rparr>"

text \<open>
  A weekly series: its parent, two instances, and the unrelated example task in one local
  store. \<open>example_quuid\<close> draws distinct identifiers for queue entries.
\<close>

definition example_parent :: OfflineTask where
  "example_parent =
     example_task\<lparr>task_id := ''parent-1'', recurrence := Weekly, is_recurring_parent := True\<rparr>"

definition example_instance_a :: OfflineTask where
  "example_instance_a =
     example_task\<lparr>task_id := ''instance-a'', due_date := ymd 2024 6 10,
       recurrence_id := Some ''parent-1''\<rparr>"

definition example_instance_b :: OfflineTask where
  "example_instance_b =
     example_task\<lparr>task_id := ''instance-b'', due_date := ymd 2024 6 17,
       recurrence_id := Some ''parent-1''\<rparr>"

definition example_db :: LocalDB where
  "example_db =
     \<lparr>db_tasks = [example_parent, example_instance_a, example_instance_b, example_task],
      db_task_lists = [], db_sync_queue = []\<rparr>"

definition example_quuid :: "nat \<Rightarrow> string" where
  "example_quuid k = replicate (Suc k) (CHR ''q'')"

text \<open>
  \<open>example_uuid\<close> draws the identifiers of generated instances. A monthly parent due on
  2023-01-31, and a weekly parent due on 2026-01-01 in a store of its own.
\<close>

definition example_uuid :: "int \<Rightarrow> string" where
  "example_uuid k = replicate (nat k) (CHR ''i'')"

definition example_monthly_parent :: OfflineTask where
  "example_monthly_parent =
     example_task\<lparr>task_id := ''parent-2'', due_date := ymd 2023 1 31, recurrence := Monthly,
       is_recurring_parent := True\<rparr>"



text \<open>
  A time zone whose offset changes: five hours behind UTC until 2024-03-10 07:00 UTC and
  four hours behind from then on, as in New York. A local time is read with the earlier
  offset up to 03:00 of that day.
\<close>

definition example_dst_zone :: time_zone where
  "example_dst_zone t isUTC =
     (let change = MakeDate (ymd 2024 3 10) (hhmm 7 0)
      in if isUTC then (if t < change then - hhmm 5 0 else - hhmm 4 0)
         else (if t < change - hhmm 4 0 then - hhmm 5 0 else - hhmm 4 0))"

text \<open>
  A notification hook with nothing scheduled and the permission granted, and the reminder
  of the example task, due one hour before the task.
\<close>

definition example_hook :: NotificationHook where
  "example_hook = \<lparr>scheduledNotifications = [], timers = [], permission_granted = True, shown = []\<rparr>"

definition example_reminder :: ScheduledNotification where
  "example_reminder =
     \<lparr>reminder_id = ''reminder-1'', taskId = ''task-1'',
      scheduledTime = Some (taskDateTime (fixed_offset 0) example_task - 60 * 60000),
      notificationTime = ''1hour'', taskData = example_task,
      reminder_status = ReminderPending\<rparr>"

text \<open>
  Three remote services: one that carries every statement out, one that refuses every
  statement with an error in its response, and one whose statements never settle well (the
  promise is rejected). A remote store that holds a newer version of the example task.
\<close>

definition always_accepts :: "SyncQueueItem \<Rightarrow> supabase_result" where
  "always_accepts item = Resolved None"

definition always_refuses :: "SyncQueueItem \<Rightarrow> supabase_result" where
  "always_refuses item = Resolved (Some ''permission denied'')"

definition always_rejects :: "SyncQueueItem \<Rightarrow> supabase_result" where
  "always_rejects item = Rejected ''Failed to fetch''"

definition example_remote :: RemoteDB where
  "example_remote =
     \<lparr>remote_tasks = [example_task\<lparr>title := ''Retrospective'', updated_at := 605\<rparr>],
      remote_task_lists = []\<rparr>"

definition example_results :: "unit SyncResults" where
  "example_results = \<lparr>processed = 0, errors = [], conflicts = []\<rparr>"

section \<open>Calendar facts\<close>

lemma LocalTime_fixed: "LocalTime (fixed_offset z) t = t + z"
  by (simp add: LocalTime_def fixed_offset_def)

lemma UTC_fixed: "UTC (fixed_offset z) t = t - z"
  by (simp add: UTC_def fixed_offset_def)


text \<open>
  The year found for a day number is the one the language standard asks for: the latest
  year that starts on or before that day.
\<close>

lemma floor_lo: "0 < k \<Longrightarrow> k * (x div k) \<le> (x::int)"
  using mult_div_mod_eq [of k x] pos_mod_sign [of k x] by linarith

lemma floor_hi: "0 < k \<Longrightarrow> (x::int) < k * (x div k) + k"
  using mult_div_mod_eq [of k x] pos_mod_bound [of k x] by linarith

lemma year_search_bounds:
  "DayFromYear y \<le> d \<Longrightarrow>
   DayFromYear (year_search d y) \<le> d \<and> d < DayFromYear (year_search d y + 1)"
proof (induction d y rule: year_search.induct)
  case (1 d y)
  show ?case
  proof (cases "DayFromYear (y + 1) \<le> d")
    case True
    with "1.IH" show ?thesis by (subst (1 2) year_search.simps) simp
  next
    case False
    with "1.prems" show ?thesis by (subst (1 2) year_search.simps) simp
  qed
qed

lemma year_start_nonneg:
  assumes d: "0 \<le> d"
  shows "DayFromYear (1970 + d div 366) \<le> d"
proof -
  define q where "q = d div 366"
  define A where "A = (q + 1) div 4"
  define B where "B = (q + 69) div 100"
  define C where "C = (q + 369) div 400"
  have q0: "0 \<le> q" using d by (simp add: q_def)
  have dq: "366 * q \<le> d" unfolding q_def by (rule floor_lo) simp
  have a: "4 * A \<le> q + 1" unfolding A_def by (rule floor_lo) simp
  have b: "q + 69 < 100 * B + 100" unfolding B_def by (rule floor_hi) simp
  have c: "400 * C \<le> q + 369" unfolding C_def by (rule floor_lo) simp
  have e: "DayFromYear (1970 + q) = 365 * q + A - B + C"
    by (simp add: DayFromYear_def A_def B_def C_def add.commute)
  have "A - B + C \<le> q"
  proof (cases "q < 2")
    case True
    with q0 a b c have "A \<le> 0" "0 \<le> B" "C \<le> 0" by linarith+
    with q0 show ?thesis by linarith
  next
    case False
    with a b c show ?thesis by linarith
  qed
  with dq have "DayFromYear (1970 + q) \<le> d" unfolding e by linarith
  then show ?thesis by (simp only: q_def)
qed

lemma year_start_neg:
  assumes d: "d < 0"
  shows "DayFromYear (1969 + d div 365) \<le> d"
proof -
  define q where "q = d div 365"
  define A where "A = q div 4"
  define B where "B = (q + 68) div 100"
  define C where "C = (q + 368) div 400"
  have q0: "q < 0" using d by (simp add: q_def)
  have dq: "365 * q \<le> d" unfolding q_def by (rule floor_lo) simp
  have a: "4 * A \<le> q" unfolding A_def by (rule floor_lo) simp
  have b: "q + 68 < 100 * B + 100" unfolding B_def by (rule floor_hi) simp
  have c: "400 * C \<le> q + 368" unfolding C_def by (rule floor_lo) simp
  have e: "DayFromYear (1969 + q) = 365 * (q - 1) + A - B + C"
    by (simp add: DayFromYear_def A_def B_def C_def add.commute)
  from q0 a b c have "A - B + C \<le> 365" by linarith
  with dq have "DayFromYear (1969 + q) \<le> d" unfolding e by (simp add: algebra_simps)
  then show ?thesis by (simp only: q_def)
qed

lemma YearFromDay_bounds:
  "DayFromYear (YearFromDay d) \<le> d \<and> d < DayFromYear (YearFromDay d + 1)"
proof (cases "0 \<le> d")
  case True
  from year_search_bounds [OF year_start_nonneg [OF True]] True
  show ?thesis by (simp only: YearFromDay_def if_True)
next
  case False
  then have "d < 0" by simp
  from year_search_bounds [OF year_start_neg [OF this]] False
  show ?thesis by (simp only: YearFromDay_def if_False)
qed

text \<open>
  A year is as long as \<open>DaysInYear\<close> says, so the day numbers of a year are exactly those
  from its first day up to the day before the first day of the next year.
\<close>

lemma div_succ:
  fixes x k :: int
  assumes "0 < k"
  shows "(x + 1) div k = x div k + (if (x + 1) mod k = 0 then 1 else 0)"
proof -
  define q where "q = x div k"
  define r where "r = x mod k"
  have x: "x = k * q + r" by (simp add: q_def r_def)
  have r: "0 \<le> r" "r < k" using assms by (simp_all add: r_def)
  show ?thesis
  proof (cases "r + 1 = k")
    case True
    then have e: "x + 1 = k * (q + 1) + 0" using x by (simp add: algebra_simps)
    have "(x + 1) div k = q + 1"
      by (rule int_div_pos_eq [OF e]) (use assms in simp_all)
    moreover have "(x + 1) mod k = 0"
      by (rule int_mod_pos_eq [OF e]) (use assms in simp_all)
    ultimately show ?thesis by (simp add: q_def)
  next
    case False
    with r have lt: "r + 1 < k" by simp
    have e: "x + 1 = k * q + (r + 1)" using x by simp
    have "(x + 1) div k = q"
      by (rule int_div_pos_eq [OF e]) (use r lt in simp_all)
    moreover have "(x + 1) mod k = r + 1"
      by (rule int_mod_pos_eq [OF e]) (use r lt in simp_all)
    ultimately show ?thesis using r by (simp add: q_def)
  qed
qed

lemma mod_shift: "((y::int) - k * n) mod k = y mod k"
proof -
  have "y - k * n = y + k * (- n)" by simp
  then show ?thesis by (simp only: mod_mult_self2)
qed

lemma year_length: "DayFromYear (y + 1) = DayFromYear y + DaysInYear y"
proof -
  have m4: "(y - 1968) mod 4 = y mod 4"
    using mod_shift [of y 4 492] by simp
  have m100: "(y - 1900) mod 100 = y mod 100"
    using mod_shift [of y 100 19] by simp
  have m400: "(y - 1600) mod 400 = y mod 400"
    using mod_shift [of y 400 4] by simp
  have a: "(y + 1 - 1969) div 4 = (y - 1969) div 4 + (if y mod 4 = 0 then 1 else 0)"
    using div_succ [of 4 "y - 1969"] by (simp add: m4 algebra_simps)
  have b: "(y + 1 - 1901) div 100 = (y - 1901) div 100 + (if y mod 100 = 0 then 1 else 0)"
    using div_succ [of 100 "y - 1901"] by (simp add: m100 algebra_simps)
  have c: "(y + 1 - 1601) div 400 = (y - 1601) div 400 + (if y mod 400 = 0 then 1 else 0)"
    using div_succ [of 400 "y - 1601"] by (simp add: m400 algebra_simps)
  have d1: "y mod 4 = 0" if "y mod 100 = 0"
  proof -
    from that have "100 dvd y" by (simp add: mod_eq_0_iff_dvd)
    moreover have "(4::int) dvd 100" by simp
    ultimately have "4 dvd y" by (rule dvd_trans [rotated])
    then show ?thesis by (simp add: mod_eq_0_iff_dvd)
  qed
  have d2: "y mod 100 = 0" if "y mod 400 = 0"
  proof -
    from that have "400 dvd y" by (simp add: mod_eq_0_iff_dvd)
    moreover have "(100::int) dvd 400" by simp
    ultimately have "100 dvd y" by (rule dvd_trans [rotated])
    then show ?thesis by (simp add: mod_eq_0_iff_dvd)
  qed
  have e: "DaysInYear y = 365 + (if y mod 4 = 0 then 1 else 0) - (if y mod 100 = 0 then 1 else 0)
      + (if y mod 400 = 0 then 1 else 0)"
    using d1 d2 by (auto simp: DaysInYear_def)
  show ?thesis
    unfolding DayFromYear_def a b c e by (simp add: algebra_simps)
qed

lemma DayFromYear_mono_nat: "DayFromYear y \<le> DayFromYear (y + int n)"
proof (induction n)
  case 0
  then show ?case by simp
next
  case (Suc n)
  have "DayFromYear (y + int n) < DayFromYear (y + int n + 1)" by (rule DayFromYear_less)
  with Suc show ?case by (simp add: algebra_simps)
qed

lemma DayFromYear_mono: "y \<le> y' \<Longrightarrow> DayFromYear y \<le> DayFromYear y'"
  using DayFromYear_mono_nat [of y "nat (y' - y)"] by simp

lemma YearFromDay_unique:
  assumes "DayFromYear y \<le> d" and "d < DayFromYear (y + 1)"
  shows "YearFromDay d = y"
proof (rule ccontr)
  assume ne: "YearFromDay d \<noteq> y"
  note b = YearFromDay_bounds [of d]
  show False
  proof (cases "YearFromDay d < y")
    case True
    then have "DayFromYear (YearFromDay d + 1) \<le> DayFromYear y"
      by (intro DayFromYear_mono) simp
    with b assms show False by simp
  next
    case False
    with ne have "DayFromYear (y + 1) \<le> DayFromYear (YearFromDay d)"
      by (intro DayFromYear_mono) simp
    with b assms show False by simp
  qed
qed

text \<open>
  \<open>MakeDay\<close> and the three readers are inverse to each other on the days 1 to 28 of every
  month. Setting the month to the following one therefore keeps such a day of the month;
  the date string changes by one calendar month when the local day of the month (the day
  of the string moved by the whole days of the offset) is one of these.
\<close>

lemma MakeDay_in_year:
  "0 \<le> mo \<Longrightarrow> mo \<le> 11 \<Longrightarrow>
   MakeDay y mo dd = DayFromYear y + month_start (InLeapYear y) mo + dd - 1"
  by (simp add: MakeDay_def)


lemma month_cases:
  "0 \<le> mo \<Longrightarrow> mo \<le> 11 \<Longrightarrow>
   mo = 0 \<or> mo = 1 \<or> mo = 2 \<or> mo = 3 \<or> mo = 4 \<or> mo = 5 \<or> mo = 6 \<or> mo = 7 \<or> mo = 8 \<or>
   mo = 9 \<or> mo = 10 \<or> mo = (11::int)"
  by arith

lemma civil_inverse:
  assumes mo: "0 \<le> mo" "mo \<le> 11" and dd: "1 \<le> dd" "dd \<le> 28"
  shows "YearFromDay (MakeDay y mo dd) = y"
    and "MonthFromDay (MakeDay y mo dd) = mo"
    and "DateFromDay (MakeDay y mo dd) = dd"
proof -
  define w where "w = month_start (InLeapYear y) mo + dd - 1"
  have d: "MakeDay y mo dd = DayFromYear y + w"
    using mo by (simp add: MakeDay_in_year w_def)
  have ly: "DaysInYear y = (if InLeapYear y then 366 else 365)"
    by (simp add: InLeapYear_def DaysInYear_def)
  have w: "0 \<le> w" "w < DaysInYear y"
    using month_cases [OF mo] dd unfolding w_def ly
    by (auto simp: month_start_def)
  show y: "YearFromDay (MakeDay y mo dd) = y"
    unfolding d using w by (intro YearFromDay_unique) (simp_all add: year_length)
  have wy: "DayWithinYear (MakeDay y mo dd) = w"
    by (simp add: DayWithinYear_def y) (simp add: d)
  show m: "MonthFromDay (MakeDay y mo dd) = mo"
    unfolding MonthFromDay_def wy y Let_def
    using month_cases [OF mo] dd unfolding w_def
    by (auto simp: month_start_def)
  show "DateFromDay (MakeDay y mo dd) = dd"
    by (simp add: DateFromDay_def wy y m w_def)
qed


text \<open>
  Setting the day of the month to the current one plus \<open>k\<close> moves a date by \<open>k\<close> whole
  days, in every time zone at a fixed offset.
\<close>

lemma MonthFromDay_range: "0 \<le> MonthFromDay d \<and> MonthFromDay d \<le> 11"
  by (simp add: MonthFromDay_def Let_def)

lemma MakeDay_civil: "MakeDay (YearFromDay d) (MonthFromDay d) (DateFromDay d + k) = d + k"
proof -
  have r: "0 \<le> MonthFromDay d" "MonthFromDay d < 12"
    using MonthFromDay_range [of d] by simp_all
  then have "MonthFromDay d div 12 = 0" and "MonthFromDay d mod 12 = MonthFromDay d"
    by simp_all
  then show ?thesis
    by (simp add: MakeDay_def Let_def DateFromDay_def DayWithinYear_def)
qed

lemma day_time_split: "Day t * msPerDay + TimeWithinDay t = t"
  by (simp add: Day_def TimeWithinDay_def)

lemma setDate_add:
  "setDate (fixed_offset z) t (getDate (fixed_offset z) t + k) = t + k * msPerDay"
proof -
  have "MakeDate (Day (t + z) + k) (TimeWithinDay (t + z)) = t + z + k * msPerDay"
    using day_time_split [of "t + z"] by (simp add: MakeDate_def algebra_simps)
  then show ?thesis
    by (simp add: setDate_def getDate_def Let_def LocalTime_fixed UTC_fixed MakeDay_civil)
qed

lemma toISODate_whole_days: "toISODate (Date_parse d + k * msPerDay) = d + k"
  by (simp add: toISODate_def Date_parse_def MakeDate_def Day_def msPerDay_def)

lemma instanceDate_daily:
  "toISODate (instanceDate (fixed_offset z) Daily (Date_parse d) k) = d + k"
  by (simp add: instanceDate_def setDate_add toISODate_whole_days)

lemma instanceDate_weekly:
  "toISODate (instanceDate (fixed_offset z) Weekly (Date_parse d) k) = d + 7 * k"
  using toISODate_whole_days [of d "k * 7"]
  by (simp add: instanceDate_def setDate_add mult.commute)




lemma ymd_2023_01_31: "ymd 2023 1 31 = 19388" by (simp add: ymd_def MakeDay_def DayFromYear_def month_start_def InLeapYear_def DaysInYear_def)

lemma year_19388: "YearFromDay 19388 = 2023"
  by (simp add: YearFromDay_def DayFromYear_def)

lemma month_19388: "MonthFromDay 19388 = 0"
  by (simp add: MonthFromDay_def DayWithinYear_def year_19388 DayFromYear_def InLeapYear_def DaysInYear_def)

lemma date_19388: "DateFromDay 19388 = 31"
  by (simp add: DateFromDay_def DayWithinYear_def year_19388 month_19388 DayFromYear_def InLeapYear_def DaysInYear_def month_start_def)

lemma civil_march_2023:
  "ymd 2023 3 3 = 19419" "ymd 2023 3 31 = 19447"
  "YearFromDay 19419 = 2023" "YearFromDay 19447 = 2023"
  "MonthFromDay 19419 = 2" "MonthFromDay 19447 = 2"
proof -
  show "ymd 2023 3 3 = 19419" "ymd 2023 3 31 = 19447"
    by (simp_all add: ymd_def MakeDay_def DayFromYear_def month_start_def InLeapYear_def
        DaysInYear_def)
  show y: "YearFromDay 19419 = 2023" "YearFromDay 19447 = 2023"
    by (simp_all add: YearFromDay_def DayFromYear_def)
  show "MonthFromDay 19419 = 2" "MonthFromDay 19447 = 2"
    by (simp_all add: MonthFromDay_def DayWithinYear_def y DayFromYear_def InLeapYear_def
        DaysInYear_def)
qed

section \<open>Keyed stores\<close>

lemma store_delete_keys: "key ` set (store_delete key k xs) = key ` set xs - {k}"
  by (auto simp: store_delete_def)

lemma store_put_keys: "key ` set (store_put key x xs) = insert (key x) (key ` set xs)"
  by (auto simp: store_put_def)

lemma store_delete_other:
  "k \<noteq> k' \<Longrightarrow> filter (\<lambda>y. key y = k') (store_delete key k xs) = filter (\<lambda>y. key y = k') xs"
  by (induction xs) (auto simp: store_delete_def)

lemma filter_replace_other:
  "key x \<noteq> k' \<Longrightarrow>
   filter (\<lambda>y. key y = k') (map (\<lambda>y. if key y = key x then x else y) xs)
     = filter (\<lambda>y. key y = k') xs"
  by (induction xs) auto

lemma store_put_other:
  "key x \<noteq> k' \<Longrightarrow> filter (\<lambda>y. key y = k') (store_put key x xs) = filter (\<lambda>y. key y = k') xs"
  by (simp add: store_put_def filter_replace_other)

lemma store_put_same:
  "filter (\<lambda>y. key y = key x) xs = [x0] \<Longrightarrow>
   filter (\<lambda>y. key y = key x) (store_put key x xs) = [x]"
proof -
  assume a: "filter (\<lambda>y. key y = key x) xs = [x0]"
  then have "x0 \<in> set (filter (\<lambda>y. key y = key x) xs)" by simp
  then have "x0 \<in> set xs" and "key x0 = key x" by simp_all
  then have "key x \<in> key ` set xs" by (metis imageI)
  then have "store_put key x xs = map (\<lambda>y. if key y = key x then x else y) xs"
    by (simp add: store_put_def)
  moreover have "filter (\<lambda>y. key y = key x) (map (\<lambda>y. if key y = key x then x else y) xs)
      = map (\<lambda>y. x) (filter (\<lambda>y. key y = key x) xs)"
    by (induction xs) auto
  ultimately show ?thesis using a by simp
qed

lemma store_delete_same: "filter (\<lambda>y. key y = k) (store_delete key k xs) = []"
  by (induction xs) (auto simp: store_delete_def)

section \<open>Properties of the local durable store\<close>

text \<open>
  Claim C9. For every user id, the reads \<open>getTasks\<close> and \<open>getTaskLists\<close> return no record
  whose sync status is \<open>deleted\<close> (and only records of that user), and the single-task read
  \<open>getTask\<close> answers \<open>null\<close> for a soft-deleted row: soft-deleted rows are never visible.
\<close>

theorem reads_hide_deleted:
  "(\<forall>task \<in> set (getTasks userId tasks).
      sync_status task \<noteq> Deleted \<and> user_id task = userId \<and> task \<in> set tasks) \<and>
   (\<forall>l \<in> set (getTaskLists userId taskLists).
      list_sync_status l \<noteq> Deleted \<and> list_user_id l = userId \<and> l \<in> set taskLists) \<and>
   (\<forall>task. getTask tid tasks = Some task \<longrightarrow>
      sync_status task \<noteq> Deleted \<and> task_id task = tid \<and> task \<in> set tasks)"
proof (intro conjI ballI allI impI)
  fix task
  assume "getTask tid tasks = Some task"
  then have f: "find (\<lambda>y. task_id y = tid) tasks = Some task" and s: "sync_status task \<noteq> Deleted"
    by (auto simp: getTask_def store_get_def split: option.splits if_splits)
  from f have "task_id task = tid" and "task \<in> set tasks"
    by (auto simp: find_Some_iff)
  with s show "sync_status task \<noteq> Deleted" "task_id task = tid" "task \<in> set tasks"
    by simp_all
qed (simp_all add: getTasks_def getTaskLists_def)

theorem reads_hide_deleted_witness:
  "getTasks ''user-1'' [example_task, example_task\<lparr>task_id := ''task-2'', sync_status := Deleted\<rparr>]
     = [example_task] \<and>
   sync_status example_task \<noteq> Deleted \<and>
   getTask ''task-1'' [example_task, example_task\<lparr>task_id := ''task-2'', sync_status := Deleted\<rparr>]
     = Some example_task \<and>
   getTask ''task-2'' [example_task, example_task\<lparr>task_id := ''task-2'', sync_status := Deleted\<rparr>]
     = None"
  using reads_hide_deleted [of "''user-1''"
      "[example_task, example_task\<lparr>task_id := ''task-2'', sync_status := Deleted\<rparr>]"
      "[]" "''task-1''"]
  by (simp add: getTasks_def getTask_def store_get_def example_task_def)

section \<open>Conflict detection of the sync endpoint\<close>

text \<open>
  Claim C1 speaks of every queued task update of a sync drain. The drain of the hook
  \<^verbatim>\<open>useOfflineSync\<close> hands a queued update to \<open>processSyncItem\<close>, which writes the
  snapshot of the entry to the remote row of the same id and reads no timestamp. The remote
  row of the example task was updated at 605 and the queued update carries the client
  timestamp 600 and an older snapshot: the drain overwrites the newer row with the
  snapshot, and nothing is recorded.
\<close>

theorem client_drain_overwrites_newer_row:
  "remote_tasks example_remote = [example_task\<lparr>title := ''Retrospective'', updated_at := 605\<rparr>] \<and>
   queue_timestamp (example_item\<lparr>queue_timestamp := 600\<rparr>)
     < updated_at (example_task\<lparr>title := ''Retrospective'', updated_at := 605\<rparr>) \<and>
   syncOfflineData True True False always_accepts [example_item\<lparr>queue_timestamp := 600\<rparr>]
     example_remote
   = ([], [], \<lparr>remote_tasks = [example_task], remote_task_lists = []\<rparr>)"
  by (simp add: syncOfflineData_def getSyncQueue_def always_accepts_def processSyncItem_def
      remote_write_def removeSyncQueueItem_def store_delete_def example_item_def
      example_remote_def example_task_def)

text \<open>
  Claim C1, for the drain through the sync endpoint. \<^verbatim>\<open>POST /api/sync\<close> hands every change
  of type task and action update to \<open>handleTaskUpdate\<close> with the client timestamp \<open>T\<^sub>c\<close> of
  the change. Against a server row
  of the same id and user with \<open>updated_at = T\<^sub>s\<close>, the update is written to the row
  (with status synced and the server's clock) exactly when \<open>T\<^sub>s \<le> T\<^sub>c\<close>; when \<open>T\<^sub>s\<close> is
  strictly newer the table is left as it is and one conflict record with the id, the entity
  type, the reason and both timestamps is appended. A conflict record is added if and only if
  \<open>T\<^sub>s > T\<^sub>c\<close>.
\<close>

theorem sync_update_conflict:
  assumes "find (\<lambda>r. task_id r = task_id dat \<and> user_id r = userId) table = Some row"
  shows "(let res = handleTaskUpdate dat userId clientTs now (results, table);
              updates = dat\<lparr>sync_status := Synced, updated_at := now\<rparr>
          in (updated_at row \<le> clientTs \<longrightarrow>
                fst res = results \<and>
                snd res = map (\<lambda>r. if task_id r = task_id dat \<and> user_id r = userId
                                     then updates else r) table \<and>
                updates \<in> set (snd res)) \<and>
             (clientTs < updated_at row \<longrightarrow>
                snd res = table \<and>
                fst res = results\<lparr>conflicts := conflicts results @
                  [\<lparr>conflict_id = task_id dat, conflict_type = EntityTask,
                    conflict_reason = ''Server version is newer'',
                    serverTimestamp = updated_at row, clientTimestamp = clientTs\<rparr>]\<rparr>) \<and>
             (conflicts (fst res) = conflicts results) = (updated_at row \<le> clientTs))"
proof -
  from assms have "row \<in> set table" and "task_id row = task_id dat \<and> user_id row = userId"
    by (auto simp: find_Some_iff)
  then have "dat\<lparr>sync_status := Synced, updated_at := now\<rparr>
      \<in> set (map (\<lambda>r. if task_id r = task_id dat \<and> user_id r = userId
                        then dat\<lparr>sync_status := Synced, updated_at := now\<rparr> else r) table)"
    by force
  with assms show ?thesis
    by (simp add: handleTaskUpdate_def Let_def)
qed

theorem sync_update_conflict_witness:
  "find (\<lambda>r. task_id r = task_id example_task \<and> user_id r = ''user-1'')
     [example_task\<lparr>updated_at := 605\<rparr>] = Some (example_task\<lparr>updated_at := 605\<rparr>) \<and>
   handleTaskUpdate example_task ''user-1'' 600 700 (example_results, [example_task\<lparr>updated_at := 605\<rparr>])
     = (example_results\<lparr>conflicts :=
          [\<lparr>conflict_id = ''task-1'', conflict_type = EntityTask,
            conflict_reason = ''Server version is newer'',
            serverTimestamp = 605, clientTimestamp = 600\<rparr>]\<rparr>,
        [example_task\<lparr>updated_at := 605\<rparr>]) \<and>
   handleTaskUpdate example_task ''user-1'' 605 700 (example_results, [example_task\<lparr>updated_at := 605\<rparr>])
     = (example_results, [example_task\<lparr>sync_status := Synced, updated_at := 700\<rparr>])"
proof -
  have h: "find (\<lambda>r. task_id r = task_id example_task \<and> user_id r = ''user-1'')
     [example_task\<lparr>updated_at := 605\<rparr>] = Some (example_task\<lparr>updated_at := 605\<rparr>)"
    by (simp add: example_task_def)
  from sync_update_conflict [OF h, of 600 700 example_results]
    sync_update_conflict [OF h, of 605 700 example_results]
  show ?thesis using h
    by (simp add: Let_def prod_eq_iff example_task_def example_results_def)
qed

section \<open>Retry ceiling of the sync queue\<close>

lemma processSyncItem_rejected:
  "supabase item = Rejected e \<Longrightarrow> processSyncItem supabase item remote = Inl e"
  by (simp add: processSyncItem_def)

lemma processSyncItem_resolved:
  "supabase item = Resolved response \<Longrightarrow>
   processSyncItem supabase item remote
     = Inr (case response of None \<Rightarrow> remote_write item remote | Some e \<Rightarrow> remote)"
  by (simp add: processSyncItem_def split: option.splits)

lemma drain_items_other:
  "k \<notin> queue_id ` set items \<Longrightarrow>
   filter (\<lambda>y. queue_id y = k) (fst (drain_items supabase items (queue, log, remote)))
     = filter (\<lambda>y. queue_id y = k) queue"
proof (induction items arbitrary: queue log remote)
  case Nil
  then show ?case by simp
next
  case (Cons item rest)
  then have ne: "queue_id item \<noteq> k" and r: "k \<notin> queue_id ` set rest" by auto
  show ?case
    using Cons.IH [OF r] ne
    by (cases "processSyncItem supabase item remote")
       (simp_all add: Let_def removeSyncQueueItem_def updateSyncQueueItem_def
          store_delete_other store_put_other)
qed

lemma drain_items_log_mono:
  "e \<in> set log \<Longrightarrow> e \<in> set (fst (snd (drain_items supabase items (queue, log, remote))))"
proof (induction items arbitrary: queue log remote)
  case Nil
  then show ?case by simp
next
  case (Cons item rest)
  then show ?case
    by (cases "processSyncItem supabase item remote") (simp_all add: Let_def)
qed

lemma drain_items_keys:
  "queue_id ` set (fst (drain_items supabase items (queue, log, remote)))
     \<subseteq> queue_id ` set queue \<union> queue_id ` set items"
proof (induction items arbitrary: queue log remote)
  case Nil
  then show ?case by simp
next
  case (Cons item rest)
  have a: "queue_id ` set (removeSyncQueueItem (queue_id item) queue) \<subseteq> queue_id ` set queue"
    by (auto simp: removeSyncQueueItem_def store_delete_keys)
  have b: "queue_id ` set (updateSyncQueueItem (item\<lparr>retries := retries item + 1\<rparr>) queue)
      \<subseteq> queue_id ` set queue \<union> {queue_id item}"
    by (auto simp: updateSyncQueueItem_def store_put_keys)
  show ?case
  proof (cases "processSyncItem supabase item remote")
    case (Inr remote')
    have "queue_id ` set (fst (drain_items supabase rest
              (removeSyncQueueItem (queue_id item) queue, log, remote')))
          \<subseteq> queue_id ` set queue \<union> queue_id ` set rest"
      using Cons.IH [of "removeSyncQueueItem (queue_id item) queue" log remote'] a by blast
    with Inr show ?thesis by auto
  next
    case (Inl e)
    show ?thesis
    proof (cases "3 \<le> retries item + 1")
      case True
      have "queue_id ` set (fst (drain_items supabase rest
                (removeSyncQueueItem (queue_id item) queue,
                 log @ [ErrorProcessing e, WarnMaxRetries (item\<lparr>retries := retries item + 1\<rparr>)],
                 remote)))
            \<subseteq> queue_id ` set queue \<union> queue_id ` set rest"
        using Cons.IH [of "removeSyncQueueItem (queue_id item) queue"
            "log @ [ErrorProcessing e, WarnMaxRetries (item\<lparr>retries := retries item + 1\<rparr>)]" remote]
          a by blast
      with Inl True show ?thesis by (auto simp: Let_def)
    next
      case False
      have "queue_id ` set (fst (drain_items supabase rest
                (updateSyncQueueItem (item\<lparr>retries := retries item + 1\<rparr>) queue,
                 log @ [ErrorProcessing e], remote)))
            \<subseteq> queue_id ` set queue \<union> {queue_id item} \<union> queue_id ` set rest"
        using Cons.IH [of "updateSyncQueueItem (item\<lparr>retries := retries item + 1\<rparr>) queue"
            "log @ [ErrorProcessing e]" remote]
          b by blast
      with Inl False show ?thesis by (auto simp: Let_def)
    qed
  qed
qed

lemma drain_items_member:
  assumes "distinct (map queue_id items)" and "item \<in> set items"
    and "filter (\<lambda>y. queue_id y = queue_id item) queue = [item]"
  shows "(supabase item = Resolved response \<longrightarrow>
            filter (\<lambda>y. queue_id y = queue_id item)
              (fst (drain_items supabase items (queue, log, remote))) = []) \<and>
         (supabase item = Rejected e \<and> 3 \<le> retries item + 1 \<longrightarrow>
            filter (\<lambda>y. queue_id y = queue_id item)
              (fst (drain_items supabase items (queue, log, remote))) = [] \<and>
            WarnMaxRetries (item\<lparr>retries := retries item + 1\<rparr>)
              \<in> set (fst (snd (drain_items supabase items (queue, log, remote))))) \<and>
         (supabase item = Rejected e \<and> \<not> 3 \<le> retries item + 1 \<longrightarrow>
            filter (\<lambda>y. queue_id y = queue_id item)
              (fst (drain_items supabase items (queue, log, remote)))
              = [item\<lparr>retries := retries item + 1\<rparr>])"
  using assms
proof (induction items arbitrary: queue log remote)
  case Nil
  then show ?case by simp
next
  case (Cons x rest)
  show ?case
  proof (cases "x = item")
    case True
    from Cons.prems(1) True have notin: "queue_id item \<notin> queue_id ` set rest" by auto
    note other = drain_items_other [OF notin]
    have put: "filter (\<lambda>y. queue_id y = queue_id item)
                 (store_put queue_id (item\<lparr>retries := retries item + 1\<rparr>) queue)
               = [item\<lparr>retries := retries item + 1\<rparr>]"
      using store_put_same [of queue_id "item\<lparr>retries := retries item + 1\<rparr>" queue item]
        Cons.prems(3) by simp
    show ?thesis
      using True other put
      by (auto simp: Let_def removeSyncQueueItem_def updateSyncQueueItem_def store_delete_same
          processSyncItem_rejected processSyncItem_resolved
          intro: drain_items_log_mono)
  next
    case False
    with Cons.prems have mem: "item \<in> set rest" and d: "distinct (map queue_id rest)"
      and ne: "queue_id x \<noteq> queue_id item"
      by auto
    have keep: "filter (\<lambda>y. queue_id y = queue_id item) q' = [item]"
      if "q' = removeSyncQueueItem (queue_id x) queue \<or>
          q' = updateSyncQueueItem (x\<lparr>retries := retries x + 1\<rparr>) queue" for q'
      using that ne Cons.prems(3)
      by (auto simp: removeSyncQueueItem_def updateSyncQueueItem_def store_delete_other
          store_put_other)
    show ?thesis
      using Cons.IH [OF d mem keep]
      by (cases "processSyncItem supabase x remote") (simp_all add: Let_def)
  qed
qed

lemma filter_key_single:
  "distinct (map key xs) \<Longrightarrow> x \<in> set xs \<Longrightarrow> filter (\<lambda>y. key y = key x) xs = [x]"
proof (induction xs)
  case Nil
  then show ?case by simp
next
  case (Cons a xs)
  show ?case
  proof (cases "a = x")
    case True
    with Cons.prems(1) have "key x \<notin> key ` set xs" by simp
    then have "filter (\<lambda>y. key y = key x) xs = []"
      by (induction xs) auto
    with True show ?thesis by simp
  next
    case False
    with Cons.prems have x: "x \<in> set xs" and d: "distinct (map key xs)" and "key a \<notin> key ` set xs"
      by auto
    then have "key a \<noteq> key x" by (metis imageI)
    with Cons.IH [OF d x] show ?thesis by simp
  qed
qed

lemma store_delete_distinct:
  "distinct (map key xs) \<Longrightarrow> distinct (map key (store_delete key k xs))"
  by (simp add: store_delete_def distinct_map_filter)

lemma map_replace_keys:
  "map key (map (\<lambda>y. if key y = key x then x else y) xs) = map key xs"
  by (induction xs) auto

lemma store_put_distinct:
  "distinct (map key xs) \<Longrightarrow> distinct (map key (store_put key x xs))"
proof (cases "key x \<in> key ` set xs")
  case True
  assume "distinct (map key xs)"
  with True show ?thesis
    by (simp only: store_put_def if_True map_replace_keys)
next
  case False
  assume "distinct (map key xs)"
  with False show ?thesis
    by (simp add: store_put_def)
qed

lemma drain_items_distinct:
  "distinct (map queue_id queue) \<Longrightarrow>
   distinct (map queue_id (fst (drain_items supabase items (queue, log, remote))))"
proof (induction items arbitrary: queue log remote)
  case Nil
  then show ?case by simp
next
  case (Cons item rest)
  have a: "distinct (map queue_id (removeSyncQueueItem (queue_id item) queue))"
    using Cons.prems by (simp add: removeSyncQueueItem_def store_delete_distinct)
  have b: "distinct (map queue_id (updateSyncQueueItem (item\<lparr>retries := retries item + 1\<rparr>) queue))"
    using Cons.prems by (simp add: updateSyncQueueItem_def store_put_distinct)
  show ?case
    using Cons.IH [OF a] Cons.IH [OF b]
    by (cases "processSyncItem supabase item remote") (simp_all add: Let_def)
qed

lemma filter_key_empty: "(filter (\<lambda>y. key y = k) xs = []) = (k \<notin> key ` set xs)"
  by (induction xs) auto

text \<open>
  The loop itself keeps the ceiling: an entry on which \<open>processSyncItem\<close> throws stays in
  the queue with its counter raised while the counter is below 3, and is removed with the
  warning when the counter reaches 3.
\<close>

lemma drain_failed_item:
  assumes d: "distinct (map queue_id queue)" and m: "item \<in> set queue"
    and f: "supabase item = Rejected e"
  shows "distinct (map queue_id (fst (syncOfflineData True True False supabase queue remote)))"
    and "3 \<le> retries item + 1 \<Longrightarrow>
           queue_id item \<notin> queue_id ` set (fst (syncOfflineData True True False supabase queue remote)) \<and>
           WarnMaxRetries (item\<lparr>retries := retries item + 1\<rparr>)
             \<in> set (fst (snd (syncOfflineData True True False supabase queue remote)))"
    and "\<not> 3 \<le> retries item + 1 \<Longrightarrow>
           item\<lparr>retries := retries item + 1\<rparr>
             \<in> set (fst (syncOfflineData True True False supabase queue remote))"
proof -
  have single: "filter (\<lambda>y. queue_id y = queue_id item) queue = [item]"
    using d m by (rule filter_key_single)
  note mem = drain_items_member [OF d m single, of supabase _ "[]" remote e]
  show "distinct (map queue_id (fst (syncOfflineData True True False supabase queue remote)))"
    using d by (simp add: syncOfflineData_def getSyncQueue_def drain_items_distinct)
  show "queue_id item \<notin> queue_id ` set (fst (syncOfflineData True True False supabase queue remote)) \<and>
        WarnMaxRetries (item\<lparr>retries := retries item + 1\<rparr>)
          \<in> set (fst (snd (syncOfflineData True True False supabase queue remote)))"
    if "3 \<le> retries item + 1"
    using mem f that by (simp add: syncOfflineData_def getSyncQueue_def filter_key_empty)
  show "item\<lparr>retries := retries item + 1\<rparr>
          \<in> set (fst (syncOfflineData True True False supabase queue remote))"
    if "\<not> 3 \<le> retries item + 1"
  proof -
    from mem f that
    have "filter (\<lambda>y. queue_id y = queue_id item)
            (fst (syncOfflineData True True False supabase queue remote))
          = [item\<lparr>retries := retries item + 1\<rparr>]"
      by (simp add: syncOfflineData_def getSyncQueue_def)
    then have "item\<lparr>retries := retries item + 1\<rparr>
        \<in> set (filter (\<lambda>y. queue_id y = queue_id item)
            (fst (syncOfflineData True True False supabase queue remote)))"
      by simp
    then show ?thesis by simp
  qed
qed

lemma drain_keys_subset:
  "queue_id ` set (fst (syncOfflineData user isOnline isSyncing supabase queue remote))
     \<subseteq> queue_id ` set queue"
  using drain_items_keys [of supabase queue queue "[]" remote]
  by (auto simp: syncOfflineData_def getSyncQueue_def)

lemma retry_ceiling_when_thrown:
  assumes dq0: "distinct (map queue_id queue)"
    and fresh: "uuid \<notin> queue_id ` set queue"
    and item: "item = \<lparr>queue_id = uuid, queue_type = ty, queue_action = act, queue_data = dat,
                        queue_timestamp = ts, retries = 0\<rparr>"
    and qa_def: "qa = fst (syncOfflineData True True False sa
                            (addToSyncQueue ty act dat uuid ts queue) ra)"
    and qb_def: "qb = fst (syncOfflineData True True False sb qa rb)"
    and rc_def: "rc = syncOfflineData True True False sc qb rd"
    and f1: "sa item = Rejected ea"
    and f2: "sb (item\<lparr>retries := 1\<rparr>) = Rejected eb"
    and f3: "sc (item\<lparr>retries := 2\<rparr>) = Rejected ec"
  shows "item\<lparr>retries := 1\<rparr> \<in> set qa \<and>
         item\<lparr>retries := 2\<rparr> \<in> set qb \<and>
         uuid \<notin> queue_id ` set (fst rc) \<and>
         WarnMaxRetries (item\<lparr>retries := 3\<rparr>) \<in> set (fst (snd rc)) \<and>
         uuid \<notin> queue_id ` set (getSyncQueue (fst rc)) \<and>
         uuid \<notin> queue_id ` set (fst (syncOfflineData user isOnline isSyncing sd (fst rc) re))"
proof -
  let ?q = "addToSyncQueue ty act dat uuid ts queue"
  have q: "?q = queue @ [item]"
    using fresh by (simp add: addToSyncQueue_def store_put_def item)
  have dq: "distinct (map queue_id ?q)"
    using dq0 fresh by (simp add: q item)
  have mq: "item \<in> set ?q" by (simp add: q)
  have r0: "retries item = 0" and k: "queue_id item = uuid" by (simp_all add: item)
  have m1: "item\<lparr>retries := 1\<rparr> \<in> set qa"
    using drain_failed_item(3) [of ?q item sa ea ra, OF dq mq f1] r0 by (simp add: qa_def)
  have d1: "distinct (map queue_id qa)"
    using drain_failed_item(1) [of ?q item sa ea ra, OF dq mq f1] by (simp add: qa_def)
  have m2: "item\<lparr>retries := 2\<rparr> \<in> set qb"
    using drain_failed_item(3) [of qa "item\<lparr>retries := 1\<rparr>" sb eb rb, OF d1 m1 f2] r0
    by (simp add: qb_def)
  have d2: "distinct (map queue_id qb)"
    using drain_failed_item(1) [of qa "item\<lparr>retries := 1\<rparr>" sb eb rb, OF d1 m1 f2]
    by (simp add: qb_def)
  have e3: "uuid \<notin> queue_id ` set (fst rc) \<and>
      WarnMaxRetries (item\<lparr>retries := 3\<rparr>) \<in> set (fst (snd rc))"
    using drain_failed_item(2) [of qb "item\<lparr>retries := 2\<rparr>" sc ec rd, OF d2 m2 f3] r0 k
    by (simp add: rc_def)
  then have "uuid \<notin> queue_id ` set (fst (syncOfflineData user isOnline isSyncing sd (fst rc) re))"
    using drain_keys_subset [of user isOnline isSyncing sd "fst rc" re] by blast
  with m1 m2 e3 show ?thesis by (simp add: getSyncQueue_def)
qed

lemma retry_ceiling_when_thrown_example:
  "(let q0 = addToSyncQueue EntityTask Update (TaskData example_task) ''entry-1'' 0 [];
        q1 = fst (syncOfflineData True True False always_rejects q0 example_remote);
        q2 = fst (syncOfflineData True True False always_rejects q1 example_remote);
        r3 = syncOfflineData True True False always_rejects q2 example_remote
    in q1 = [example_item\<lparr>retries := 1\<rparr>] \<and>
       q2 = [example_item\<lparr>retries := 2\<rparr>] \<and>
       r3 = ([], [ErrorProcessing ''Failed to fetch'', WarnMaxRetries (example_item\<lparr>retries := 3\<rparr>)],
             example_remote))"
  by (simp add: Let_def syncOfflineData_def getSyncQueue_def addToSyncQueue_def store_put_def
      always_rejects_def processSyncItem_def removeSyncQueueItem_def updateSyncQueueItem_def
      store_delete_def example_item_def)

text \<open>
  A write that the service refuses does not make \<open>processSyncItem\<close> throw. When no
  statement of a drain is rejected, the drain removes every entry of its snapshot from the
  queue, logs nothing, and raises no counter, whether the writes were carried out or not.
\<close>

lemma drain_items_resolved:
  "\<forall>item \<in> set items. \<exists>response. supabase item = Resolved response \<Longrightarrow>
   fst (drain_items supabase items (queue, log, remote))
     = filter (\<lambda>y. queue_id y \<notin> queue_id ` set items) queue \<and>
   fst (snd (drain_items supabase items (queue, log, remote))) = log"
proof (induction items arbitrary: queue log remote)
  case Nil
  then show ?case by simp
next
  case (Cons item rest)
  then obtain response where r: "supabase item = Resolved response" by auto
  from Cons.prems have rest: "\<forall>item \<in> set rest. \<exists>response. supabase item = Resolved response"
    by simp
  have f: "filter (\<lambda>y. queue_id y \<notin> queue_id ` set rest) (filter (\<lambda>y. queue_id y \<noteq> queue_id item) queue)
      = filter (\<lambda>y. queue_id y \<notin> queue_id ` set (item # rest)) queue"
    by (induction queue) auto
  show ?case
    using Cons.IH [OF rest] f
    by (simp add: processSyncItem_def r removeSyncQueueItem_def store_delete_def
        split: option.splits)
qed

text \<open>
  Claim C3. An update of the example task is queued, and the remote service refuses every
  write with an error in its response. The first drain removes the entry from the queue:
  its retry counter is never raised, no warning is logged, and the remote row is as before,
  so the change is lost after one failed attempt, not kept for two more.
\<close>

theorem refused_write_dropped:
  "syncOfflineData True True False always_refuses
     (addToSyncQueue EntityTask Update (TaskData example_task) ''entry-1'' 0 []) example_remote
   = ([], [], example_remote)"
  by (simp add: syncOfflineData_def getSyncQueue_def addToSyncQueue_def store_put_def
      always_refuses_def processSyncItem_def removeSyncQueueItem_def store_delete_def)

theorem refused_write_dropped_witness:
  "addToSyncQueue EntityTask Update (TaskData example_task) ''entry-1'' 0 [] = [example_item] \<and>
   always_refuses example_item = Resolved (Some ''permission denied'') \<and>
   getSyncQueue (fst (syncOfflineData True True False always_refuses
     (addToSyncQueue EntityTask Update (TaskData example_task) ''entry-1'' 0 []) example_remote)) = [] \<and>
   fst (snd (syncOfflineData True True False always_refuses
     (addToSyncQueue EntityTask Update (TaskData example_task) ''entry-1'' 0 []) example_remote)) = []"
  using refused_write_dropped
  by (simp add: getSyncQueue_def addToSyncQueue_def store_put_def example_item_def
      always_refuses_def)

section \<open>Reminder scheduling\<close>

lemma getNotificationDelay_enumerated:
  "lead_time_minutes lead = Some m \<Longrightarrow> getNotificationDelay lead = JNumber (m * 60000)"
  by (auto simp: lead_time_minutes_def getNotificationDelay_def timingMap_or_def timingMap_def
      split: if_splits)

lemma lead_nonempty: "lead_time_minutes lead = Some m \<Longrightarrow> string_or lead dflt = lead"
  by (auto simp: lead_time_minutes_def string_or_def split: if_splits)

text \<open>
  Claim C7. For a task with push notifications on, not completed, whose lead setting is
  one of the twelve options, \<open>scheduleTaskNotification\<close> (without a custom time) computes
  the fire time as the due date-time minus the lead interval; when the fire time is not
  strictly after the scheduling instant it changes nothing, and otherwise it records the
  reminder and registers its callback for the fire time. In the witness the task is due on
  2024-06-03 at 09:00 with lead \<^verbatim>\<open>1hour\<close>: loading it at 08:30 schedules nothing, loading
  it at 07:00 schedules the reminder for 08:00.
\<close>

theorem reminder_fire_time:
  assumes "push_notification task" and "\<not> completed task"
    and "lead_time_minutes (notification_time task) = Some m"
  shows "scheduleTaskNotification tz now uuid task None st =
     (let fire_time = taskDateTime tz task - m * 60000;
          reminder = \<lparr>reminder_id = uuid, taskId = task_id task, scheduledTime = Some fire_time,
                      notificationTime = notification_time task, taskData = task,
                      reminder_status = ReminderPending\<rparr>
      in if fire_time \<le> now then st
         else st\<lparr>scheduledNotifications := scheduledNotifications st @ [reminder],
                 timers := timers st @ [(fire_time, reminder)]\<rparr>)"
  using assms
  by (simp add: scheduleTaskNotification_def getNotificationDelay_enumerated lead_nonempty
      js_minus_def js_le_def Let_def saveScheduledNotifications_def scheduleLocalNotification_def)

lemma example_due: "taskDateTime (fixed_offset 0) example_task = MakeDate (ymd 2024 6 3) (hhmm 9 0)"
  by (simp add: taskDateTime_def example_task_def UTC_fixed)

theorem reminder_fire_time_witness:
  "push_notification example_task \<and> \<not> completed example_task \<and>
   lead_time_minutes (notification_time example_task) = Some 60 \<and>
   scheduleTaskNotification (fixed_offset 0) (MakeDate (ymd 2024 6 3) (hhmm 8 30)) ''reminder-1'' example_task None
     example_hook = example_hook \<and>
   scheduleTaskNotification (fixed_offset 0) (MakeDate (ymd 2024 6 3) (hhmm 7 0)) ''reminder-1'' example_task None
     example_hook
     = example_hook\<lparr>scheduledNotifications := [example_reminder],
         timers := [(MakeDate (ymd 2024 6 3) (hhmm 8 0), example_reminder)]\<rparr>"
proof -
  have p: "push_notification example_task" and c: "\<not> completed example_task"
    and l: "lead_time_minutes (notification_time example_task) = Some 60"
    by (simp_all add: example_task_def lead_time_minutes_def)
  have t: "taskDateTime (fixed_offset 0) example_task - 3600000 = MakeDate (ymd 2024 6 3) (hhmm 8 0)"
    by (simp add: example_due MakeDate_def hhmm_def)
  have a: "MakeDate (ymd 2024 6 3) (hhmm 8 0) \<le> MakeDate (ymd 2024 6 3) (hhmm 8 30)"
    and b: "\<not> MakeDate (ymd 2024 6 3) (hhmm 8 0) \<le> MakeDate (ymd 2024 6 3) (hhmm 7 0)"
    by (simp_all add: MakeDate_def hhmm_def)
  have f: "task_id example_task = ''task-1''" "notification_time example_task = ''1hour''"
    by (simp_all add: example_task_def)
  have late: "scheduleTaskNotification (fixed_offset 0) (MakeDate (ymd 2024 6 3) (hhmm 8 30)) ''reminder-1''
      example_task None example_hook = example_hook"
    using reminder_fire_time [OF p c l, of "fixed_offset 0" "MakeDate (ymd 2024 6 3) (hhmm 8 30)"
        "''reminder-1''" example_hook] a
    by (simp add: Let_def t)
  have early: "scheduleTaskNotification (fixed_offset 0) (MakeDate (ymd 2024 6 3) (hhmm 7 0)) ''reminder-1''
      example_task None example_hook
     = example_hook\<lparr>scheduledNotifications := [example_reminder],
         timers := [(MakeDate (ymd 2024 6 3) (hhmm 8 0), example_reminder)]\<rparr>"
    using reminder_fire_time [OF p c l, of "fixed_offset 0" "MakeDate (ymd 2024 6 3) (hhmm 7 0)"
        "''reminder-1''" example_hook] b
    by (simp add: Let_def t f example_reminder_def example_hook_def)
  from p c l late early show ?thesis by simp
qed

lemma example_scheduled:
  "scheduleTaskNotification (fixed_offset 0) (MakeDate (ymd 2024 6 3) (hhmm 7 0)) ''reminder-1''
      example_task None example_hook
     = example_hook\<lparr>scheduledNotifications := [example_reminder],
         timers := [(MakeDate (ymd 2024 6 3) (hhmm 8 0), example_reminder)]\<rparr>"
proof -
  have d: "getNotificationDelay ''1hour'' = JNumber 3600000"
    by (simp add: getNotificationDelay_def timingMap_or_def timingMap_def)
  have t: "taskDateTime (fixed_offset 0) example_task - 3600000 = MakeDate (ymd 2024 6 3) (hhmm 8 0)"
    by (simp add: example_due MakeDate_def hhmm_def)
  have b: "\<not> MakeDate (ymd 2024 6 3) (hhmm 8 0) \<le> MakeDate (ymd 2024 6 3) (hhmm 7 0)"
    by (simp add: MakeDate_def hhmm_def)
  have f: "task_id example_task = ''task-1''" "notification_time example_task = ''1hour''"
    "push_notification example_task" "\<not> completed example_task"
    by (simp_all add: example_task_def)
  show ?thesis
    using b
    by (simp add: scheduleTaskNotification_def f string_or_def d js_minus_def t js_le_def Let_def
        saveScheduledNotifications_def scheduleLocalNotification_def example_reminder_def
        example_hook_def)
qed

text \<open>
  Claim C8 says that a change of a task's reminder settings cancels the callback scheduled
  before, so that no reminder fires with the old settings. \<open>cancelTaskNotifications\<close> only
  filters the list of scheduled reminders; the callback registered with \<^verbatim>\<open>setTimeout\<close>
  stays, and \<open>showTaskNotification\<close> does not look at the list. The example task is
  scheduled at 07:00, marked completed at 07:30 and updated: the list is empty, the timer
  for 08:00 is still pending, and at 08:00 the reminder of the completed task is displayed.
\<close>

theorem stale_timer_fires:
  "scheduledNotifications
     (updateTaskNotification (fixed_offset 0) (MakeDate (ymd 2024 6 3) (hhmm 7 30)) ''reminder-2''
        (example_task\<lparr>completed := True\<rparr>)
        (scheduleTaskNotification (fixed_offset 0) (MakeDate (ymd 2024 6 3) (hhmm 7 0)) ''reminder-1''
           example_task None example_hook)) = [] \<and>
   timers
     (updateTaskNotification (fixed_offset 0) (MakeDate (ymd 2024 6 3) (hhmm 7 30)) ''reminder-2''
        (example_task\<lparr>completed := True\<rparr>)
        (scheduleTaskNotification (fixed_offset 0) (MakeDate (ymd 2024 6 3) (hhmm 7 0)) ''reminder-1''
           example_task None example_hook))
     = [(MakeDate (ymd 2024 6 3) (hhmm 8 0), example_reminder)] \<and>
   shown
     (run_due_timers (MakeDate (ymd 2024 6 3) (hhmm 8 0))
        (updateTaskNotification (fixed_offset 0) (MakeDate (ymd 2024 6 3) (hhmm 7 30)) ''reminder-2''
           (example_task\<lparr>completed := True\<rparr>)
           (scheduleTaskNotification (fixed_offset 0) (MakeDate (ymd 2024 6 3) (hhmm 7 0)) ''reminder-1''
              example_task None example_hook)))
     = [example_reminder]"
  unfolding example_scheduled
  by (simp add: updateTaskNotification_def cancelTaskNotifications_def
      saveScheduledNotifications_def run_due_timers_def showTaskNotification_def
      example_hook_def example_reminder_def example_task_def Let_def)

theorem stale_timer_fires_witness:
  "push_notification example_task \<and> \<not> completed example_task \<and>
   permission_granted example_hook \<and>
   example_reminder
     \<in> set (shown
         (run_due_timers (MakeDate (ymd 2024 6 3) (hhmm 8 0))
            (updateTaskNotification (fixed_offset 0) (MakeDate (ymd 2024 6 3) (hhmm 7 30)) ''reminder-2''
               (example_task\<lparr>completed := True\<rparr>)
               (scheduleTaskNotification (fixed_offset 0) (MakeDate (ymd 2024 6 3) (hhmm 7 0)) ''reminder-1''
                  example_task None example_hook)))) \<and>
   taskData example_reminder = example_task"
  using stale_timer_fires
  by (simp add: example_task_def example_hook_def example_reminder_def)

subsection \<open>Lead-time lookup\<close>

text \<open>
  A lead value outside the twelve options that is not the name of a member of
  \<^verbatim>\<open>Object.prototype\<close> falls back to 10 minutes on the push paths and to one hour on the
  e-mail path of the client.
\<close>

lemma timingMap_or_fallback:
  assumes "lead_time_minutes lead = None" and "lead \<notin> set Object_prototype_members"
  shows "timingMap_or lead dflt = JNumber dflt"
proof -
  from assms(1) have "map_of timingMap lead = None"
    by (simp add: lead_time_minutes_def timingMap_def split: if_splits)
  with assms(2) show ?thesis by (simp add: timingMap_or_def)
qed

lemma lead_lookup_fallback:
  assumes "lead_time_minutes lead = None" and "lead \<notin> set Object_prototype_members"
  shows "getNotificationDelay lead = JNumber (10 * 60000)"
    and "getNotificationDelay_email lead = JNumber (60 * 60000)"
    and "calculateNotificationTime tz dueDate dueTime lead
           = Some (UTC tz (MakeDate dueDate dueTime) - 10 * 60000)"
  using timingMap_or_fallback [OF assms]
  by (simp_all add: getNotificationDelay_def getNotificationDelay_email_def
      calculateNotificationTime_def js_minus_def)

text \<open>
  Claim C10 says that every lead value outside the twelve options falls back to 10 minutes
  (push paths) or one hour (e-mail path). For \<^verbatim>\<open>'constructor'\<close> the lookup
  \<^verbatim>\<open>timingMap[timing]\<close> finds the member inherited from \<^verbatim>\<open>Object.prototype\<close>, which is
  truthy, so no fallback happens: the delay is not a number, the fire time is \<^verbatim>\<open>NaN\<close>, the
  test \<^verbatim>\<open>reminderTime <= now\<close> is false, and the reminder is registered to fire at once;
  the server helper yields an invalid date.
\<close>

theorem lead_lookup_inherited_member:
  "lead_time_minutes ''constructor'' = None \<and>
   getNotificationDelay ''constructor'' = JInherited ''constructor'' \<and>
   getNotificationDelay_email ''constructor'' = JInherited ''constructor'' \<and>
   calculateNotificationTime (fixed_offset 0) (ymd 2024 6 3) (hhmm 9 0) ''constructor'' = None \<and>
   scheduleTaskNotification (fixed_offset 0) (MakeDate (ymd 2024 6 3) (hhmm 7 0)) ''reminder-1''
     (example_task\<lparr>notification_time := ''constructor''\<rparr>) None example_hook
     = example_hook
        \<lparr>scheduledNotifications :=
           [example_reminder\<lparr>scheduledTime := None, notificationTime := ''constructor'',
              taskData := example_task\<lparr>notification_time := ''constructor''\<rparr>\<rparr>],
         timers :=
           [(MakeDate (ymd 2024 6 3) (hhmm 7 0),
             example_reminder\<lparr>scheduledTime := None, notificationTime := ''constructor'',
               taskData := example_task\<lparr>notification_time := ''constructor''\<rparr>\<rparr>)]\<rparr>"
proof -
  have d: "timingMap_or ''constructor'' dflt = JInherited ''constructor''" for dflt
    by (simp add: timingMap_or_def timingMap_def Object_prototype_members_def)
  have f: "task_id example_task = ''task-1''" "push_notification example_task"
    "\<not> completed example_task"
    by (simp_all add: example_task_def)
  show ?thesis
    by (simp add: lead_time_minutes_def getNotificationDelay_def getNotificationDelay_email_def
        calculateNotificationTime_def d js_minus_def scheduleTaskNotification_def f string_or_def
        js_le_def Let_def saveScheduledNotifications_def scheduleLocalNotification_def
        example_reminder_def example_hook_def)
qed

theorem lead_lookup_inherited_member_witness:
  "''constructor'' \<in> set Object_prototype_members \<and>
   map_of timingMap ''constructor'' = None \<and>
   getNotificationDelay ''constructor'' \<noteq> JNumber (10 * 60 * 1000) \<and>
   getNotificationDelay_email ''constructor'' \<noteq> JNumber (60 * 60 * 1000)"
  using lead_lookup_inherited_member
  by (simp add: Object_prototype_members_def timingMap_def)

section \<open>Deletion of a recurring series\<close>

lemma delete_each_tasks:
  "db_tasks (delete_each quuid now k xs db)
     = filter (\<lambda>t. task_id t \<notin> task_id ` set xs) (db_tasks db)"
proof (induction xs arbitrary: k db)
  case Nil
  then show ?case by simp
next
  case (Cons x xs)
  show ?case
    by (simp add: Cons.IH deleteTask_def store_delete_def conj_commute)
qed

lemma getTasks_filter:
  "getTasks u (filter P tasks) = filter P (getTasks u tasks)"
  by (induction tasks) (auto simp: getTasks_def)

lemma deleteRecurringSeries_tasks:
  assumes "pid \<noteq> []"
    and "isParent \<and> tid = pid \<or>
         \<not> isParent \<and> (\<exists>t. find (\<lambda>t. task_id t = tid) (getTasks u (db_tasks db)) = Some t \<and>
                             recurrence_id t = Some pid)"
  shows "db_tasks (deleteRecurringSeries (Some u) quuid now tid isParent db)
     = filter (\<lambda>t. task_id t \<notin>
           task_id ` set (filter (series_member pid) (getTasks u (db_tasks db)))) (db_tasks db)"
  using assms
  by (auto simp: deleteRecurringSeries_def Let_def delete_each_tasks series_member_def)

lemma example_fields:
  "task_id example_task = ''task-1''" "user_id example_task = ''user-1''"
  "sync_status example_task = Synced" "recurrence_id example_task = None"
  "is_recurring_parent example_task = False" "recurrence example_task = RNone"
  "completed example_task = False"
  by (simp_all add: example_task_def)

text \<open>
  Claim C6 says that deleting a parent or any instance removes the whole series. The
  endpoint \<^verbatim>\<open>DELETE /api/tasks/:id\<close> cascades only when the addressed row is a recurring
  parent; addressed with the id of an instance it deletes that row alone, and the parent
  and the other instance stay.
\<close>

theorem server_instance_delete_keeps_series:
  "delete_task_endpoint ''instance-a'' ''user-1''
     [example_parent, example_instance_a, example_instance_b, example_task]
   = (204, [example_parent, example_instance_b, example_task])"
  by (simp add: delete_task_endpoint_def example_parent_def example_instance_a_def
      example_instance_b_def example_fields)

text \<open>
  Claim C6, amended. \<open>deleteRecurringSeries\<close>, called for a parent or for an instance (whose
  \<^verbatim>\<open>recurrence_id\<close> names the parent \<open>pid\<close>), removes from the local store every task visible
  to the user that belongs to the series of \<open>pid\<close>; afterwards no task of the series is
  visible, and every other task is kept. The server endpoint removes every row of the user
  that belongs to the series when the addressed row is a recurring parent, and only the
  addressed row otherwise.
\<close>

theorem series_deletion:
  "(pid \<noteq> [] \<and>
    (isParent \<and> tid = pid \<or>
     \<not> isParent \<and> (\<exists>t. find (\<lambda>t. task_id t = tid) (getTasks u (db_tasks db)) = Some t \<and>
                         recurrence_id t = Some pid)) \<longrightarrow>
    (\<forall>t \<in> set (getTasks u (db_tasks (deleteRecurringSeries (Some u) quuid now tid isParent db))).
        \<not> series_member pid t) \<and>
    (\<forall>t \<in> set (getTasks u (db_tasks db)).
        series_member pid t \<longrightarrow>
        task_id t \<notin> task_id ` set (db_tasks (deleteRecurringSeries (Some u) quuid now tid isParent db))) \<and>
    (\<forall>t \<in> set (db_tasks db).
        task_id t \<notin> task_id ` set (filter (series_member pid) (getTasks u (db_tasks db))) \<longrightarrow>
        t \<in> set (db_tasks (deleteRecurringSeries (Some u) quuid now tid isParent db)))) \<and>
   (find (\<lambda>row. task_id row = tid \<and> user_id row = u) table = Some row \<and>
    is_recurring_parent row \<longrightarrow>
    delete_task_endpoint tid u table
      = (204, filter (\<lambda>r. \<not> (user_id r = u \<and> series_member tid r)) table)) \<and>
   (find (\<lambda>row. task_id row = tid \<and> user_id row = u) table = Some row \<and>
    \<not> is_recurring_parent row \<longrightarrow>
    delete_task_endpoint tid u table
      = (204, filter (\<lambda>r. \<not> (task_id r = tid \<and> user_id r = u)) table))"
proof (intro conjI impI)
  assume a: "pid \<noteq> [] \<and>
    (isParent \<and> tid = pid \<or>
     \<not> isParent \<and> (\<exists>t. find (\<lambda>t. task_id t = tid) (getTasks u (db_tasks db)) = Some t \<and>
                         recurrence_id t = Some pid))"
  let ?db' = "deleteRecurringSeries (Some u) quuid now tid isParent db"
  let ?series = "filter (series_member pid) (getTasks u (db_tasks db))"
  have eq: "db_tasks ?db' = filter (\<lambda>t. task_id t \<notin> task_id ` set ?series) (db_tasks db)"
    using a by (intro deleteRecurringSeries_tasks) auto
  show "\<forall>t \<in> set (getTasks u (db_tasks ?db')). \<not> series_member pid t"
  proof
    fix t
    assume "t \<in> set (getTasks u (db_tasks ?db'))"
    then have v: "t \<in> set (getTasks u (db_tasks db))"
      and n: "task_id t \<notin> task_id ` set ?series"
      by (simp_all add: eq getTasks_filter)
    show "\<not> series_member pid t"
    proof
      assume "series_member pid t"
      with v have "t \<in> set ?series" by simp
      with n show False by blast
    qed
  qed
  show "\<forall>t \<in> set (getTasks u (db_tasks db)).
          series_member pid t \<longrightarrow> task_id t \<notin> task_id ` set (db_tasks ?db')"
  proof (intro ballI impI)
    fix t
    assume "t \<in> set (getTasks u (db_tasks db))" and "series_member pid t"
    then have "task_id t \<in> task_id ` set ?series" by simp
    then show "task_id t \<notin> task_id ` set (db_tasks ?db')"
      by (auto simp: eq)
  qed
  show "\<forall>t \<in> set (db_tasks db).
          task_id t \<notin> task_id ` set ?series \<longrightarrow> t \<in> set (db_tasks ?db')"
    by (simp add: eq)
next
  assume "find (\<lambda>row. task_id row = tid \<and> user_id row = u) table = Some row \<and>
    is_recurring_parent row"
  then show "delete_task_endpoint tid u table
      = (204, filter (\<lambda>r. \<not> (user_id r = u \<and> series_member tid r)) table)"
    by (simp add: delete_task_endpoint_def series_member_def)
next
  assume "find (\<lambda>row. task_id row = tid \<and> user_id row = u) table = Some row \<and>
    \<not> is_recurring_parent row"
  then show "delete_task_endpoint tid u table
      = (204, filter (\<lambda>r. \<not> (task_id r = tid \<and> user_id r = u)) table)"
    by (simp add: delete_task_endpoint_def)
qed

theorem series_deletion_witness:
  "find (\<lambda>t. task_id t = ''instance-a'') (getTasks ''user-1'' (db_tasks example_db))
     = Some example_instance_a \<and>
   recurrence_id example_instance_a = Some ''parent-1'' \<and>
   series_member ''parent-1'' example_instance_b \<and>
   example_instance_b \<in> set (getTasks ''user-1'' (db_tasks example_db)) \<and>
   db_tasks (deleteRecurringSeries (Some ''user-1'') example_quuid 0 ''instance-a'' False example_db)
     = [example_task] \<and>
   task_id example_instance_b
     \<notin> task_id ` set (db_tasks (deleteRecurringSeries (Some ''user-1'') example_quuid 0
                                    ''instance-a'' False example_db)) \<and>
   find (\<lambda>row. task_id row = ''parent-1'' \<and> user_id row = ''user-1'') (db_tasks example_db)
     = Some example_parent \<and>
   is_recurring_parent example_parent \<and>
   delete_task_endpoint ''parent-1'' ''user-1'' (db_tasks example_db) = (204, [example_task]) \<and>
   find (\<lambda>row. task_id row = ''task-1'' \<and> user_id row = ''user-1'') (db_tasks example_db)
     = Some example_task \<and>
   \<not> is_recurring_parent example_task \<and>
   delete_task_endpoint ''task-1'' ''user-1'' (db_tasks example_db)
     = (204, [example_parent, example_instance_a, example_instance_b])"
proof -
  note ex = example_db_def example_parent_def example_instance_a_def example_instance_b_def
    example_fields
  have f: "find (\<lambda>t. task_id t = ''instance-a'') (getTasks ''user-1'' (db_tasks example_db))
     = Some example_instance_a"
    and r: "recurrence_id example_instance_a = Some ''parent-1''"
    and m: "series_member ''parent-1'' example_instance_b"
    and v: "example_instance_b \<in> set (getTasks ''user-1'' (db_tasks example_db))"
    by (simp_all add: getTasks_def series_member_def ex)
  have fp: "find (\<lambda>row. task_id row = ''parent-1'' \<and> user_id row = ''user-1'') (db_tasks example_db)
     = Some example_parent" and ip: "is_recurring_parent example_parent"
    and ft: "find (\<lambda>row. task_id row = ''task-1'' \<and> user_id row = ''user-1'') (db_tasks example_db)
     = Some example_task" and it: "\<not> is_recurring_parent example_task"
    by (simp_all add: ex)
  have d: "db_tasks (deleteRecurringSeries (Some ''user-1'') example_quuid 0 ''instance-a'' False
      example_db) = [example_task]"
    by (simp add: deleteRecurringSeries_def getTasks_def deleteTask_def store_delete_def Let_def ex)
  have hyp: "''parent-1'' \<noteq> [] \<and>
    (False \<and> ''instance-a'' = ''parent-1'' \<or>
     \<not> False \<and> (\<exists>t. find (\<lambda>t. task_id t = ''instance-a'')
                          (getTasks ''user-1'' (db_tasks example_db)) = Some t \<and>
                        recurrence_id t = Some ''parent-1''))"
    using f r by simp
  note client = series_deletion [where pid = "''parent-1''" and isParent = False
      and tid = "''instance-a''" and u = "''user-1''" and db = example_db
      and quuid = example_quuid and now = 0, THEN conjunct1, THEN mp, OF hyp,
      THEN conjunct2, THEN conjunct1, THEN bspec, OF v, THEN mp, OF m]
  note srv_parent = series_deletion [where tid = "''parent-1''" and u = "''user-1''"
      and table = "db_tasks example_db" and row = example_parent,
      THEN conjunct2, THEN conjunct1, THEN mp, OF conjI [OF fp ip]]
  note srv_single = series_deletion [where tid = "''task-1''" and u = "''user-1''"
      and table = "db_tasks example_db" and row = example_task,
      THEN conjunct2, THEN conjunct2, THEN mp, OF conjI [OF ft it]]
  have sp: "delete_task_endpoint ''parent-1'' ''user-1'' (db_tasks example_db) = (204, [example_task])"
    unfolding srv_parent by (simp add: series_member_def ex)
  have ss: "delete_task_endpoint ''task-1'' ''user-1'' (db_tasks example_db)
     = (204, [example_parent, example_instance_a, example_instance_b])"
    unfolding srv_single by (simp add: ex)
  show ?thesis
    by (intro conjI f r m v d client fp ip sp ft it ss)
qed

section \<open>Recurrence expansion\<close>

text \<open>
  The list that \<open>generateRecurringInstances\<close> returns: one instance for each \<open>k\<close> from 1 up
  to the first \<open>k\<close> whose date lies after the horizon, at most \<open>n\<close>.
\<close>

lemma instances_from_map:
  "instances_from n i tz r base horizon uuid user now parent =
     map (\<lambda>k. new_instance parent user (uuid k) (task_id parent) now
                (toISODate (instanceDate tz r base k)))
       (takeWhile (\<lambda>k. instanceDate tz r base k \<le> horizon) [i..i + int n - 1])"
proof (induction n arbitrary: i)
  case 0
  then show ?case by simp
next
  case (Suc n)
  have "[i..i + int (Suc n) - 1] = i # [i + 1..i + 1 + int n - 1]"
    by (subst upto_rec1) simp_all
  then show ?case
    by (simp add: Suc.IH Let_def not_less)
qed

lemma generateRecurringInstances_map:
  "r \<noteq> RNone \<Longrightarrow>
   generateRecurringInstances (Some u) tz now uuid parent r n =
     map (\<lambda>k. new_instance parent u (uuid k) (task_id parent) now
                (toISODate (instanceDate tz r (Date_parse (due_date parent)) k)))
       (takeWhile (\<lambda>k. instanceDate tz r (Date_parse (due_date parent)) k
                          \<le> Date_local tz (getFullYear tz now + 1) (getMonth tz now) (getDate tz now))
          [1..int n])"
  by (simp add: generateRecurringInstances_def Let_def instances_from_map)

lemma generateRecurringInstances_due_dates:
  "r \<noteq> RNone \<Longrightarrow>
   map due_date (generateRecurringInstances (Some u) tz now uuid parent r n) =
     map (\<lambda>k. toISODate (instanceDate tz r (Date_parse (due_date parent)) k))
       (takeWhile (\<lambda>k. instanceDate tz r (Date_parse (due_date parent)) k
                          \<le> Date_local tz (getFullYear tz now + 1) (getMonth tz now) (getDate tz now))
          [1..int n])"
  by (simp add: generateRecurringInstances_map new_instance_def comp_def)

lemma take_upto: "take m [i..j] = [i..min j (i + int m - 1)]"
proof (induction m arbitrary: i)
  case 0
  then show ?case by simp
next
  case (Suc m)
  show ?case
  proof (cases "i \<le> j")
    case True
    then have "[i..j] = i # [i + 1..j]" by (rule upto_rec1)
    moreover have "[i..min j (i + int (Suc m) - 1)] = i # [i + 1..min j (i + 1 + int m - 1)]"
      using True by (subst upto_rec1) (simp_all add: min_def)
    ultimately show ?thesis by (simp add: Suc.IH)
  next
    case False
    then show ?thesis by simp
  qed
qed

lemma takeWhile_upto:
  "takeWhile P [1..int n] = [1..int (length (takeWhile P [1..int n]))]"
proof -
  let ?m = "length (takeWhile P [1..int n])"
  have le: "?m \<le> n"
    using length_takeWhile_le [of P "[1..int n]"] by simp
  have "takeWhile P [1..int n] = take ?m [1..int n]"
    by (rule takeWhile_eq_take)
  also have "\<dots> = [1..min (int n) (1 + int ?m - 1)]"
    by (rule take_upto)
  also have "min (int n) (1 + int ?m - 1) = int ?m"
    using le by simp
  finally show ?thesis .
qed

lemma expansion_length:
  "length (generateRecurringInstances user tz now uuid parent r n) \<le> n"
proof (cases user)
  case None
  then show ?thesis by (simp add: generateRecurringInstances_def)
next
  case (Some u)
  show ?thesis
  proof (cases "r = RNone")
    case True
    with Some show ?thesis by (simp add: generateRecurringInstances_def)
  next
    case False
    have "length (takeWhile P [1..int n]) \<le> n" for P
      using length_takeWhile_le [of P "[1..int n]"] by simp
    with Some False show ?thesis
      by (simp add: generateRecurringInstances_map)
  qed
qed

lemma expansion_due_dates:
  assumes "r \<noteq> RNone"
  shows "map due_date (generateRecurringInstances (Some u) tz now uuid parent r n) =
     map (\<lambda>k. toISODate (instanceDate tz r (Date_parse (due_date parent)) k))
       [1..int (length (generateRecurringInstances (Some u) tz now uuid parent r n))]"
proof -
  let ?P = "\<lambda>k. instanceDate tz r (Date_parse (due_date parent)) k
                          \<le> Date_local tz (getFullYear tz now + 1) (getMonth tz now) (getDate tz now)"
  have l: "length (generateRecurringInstances (Some u) tz now uuid parent r n)
      = length (takeWhile ?P [1..int n])"
    by (simp add: generateRecurringInstances_map [OF assms])
  show ?thesis
    unfolding l generateRecurringInstances_due_dates [OF assms]
    using takeWhile_upto [of ?P n] by simp
qed

text \<open>
  For the daily and the weekly rule, in a time zone at a fixed offset, the due dates are
  the parent's plus 1, 2, 3, \<dots> steps of one day or of seven days. In every zone no
  generated date lies after the horizon of one year from the day of the generation.
\<close>

lemma expansion_steps_daily_weekly:
  assumes "r = Daily \<or> r = Weekly"
  shows "map due_date (generateRecurringInstances (Some u) (fixed_offset z) now uuid parent r n) =
     map (\<lambda>k. due_date parent + (if r = Daily then 1 else 7) * k)
       [1..int (length (generateRecurringInstances (Some u) (fixed_offset z) now uuid parent r n))]"
proof -
  from assms have r: "r \<noteq> RNone" by auto
  from assms have "toISODate (instanceDate (fixed_offset z) r (Date_parse (due_date parent)) k)
      = due_date parent + (if r = Daily then 1 else 7) * k" for k
    by (auto simp: instanceDate_daily instanceDate_weekly)
  then show ?thesis
    by (simp only: expansion_due_dates [OF r])
qed

lemma expansion_within_horizon:
  assumes "r \<noteq> RNone"
    and "k \<in> set [1..int (length (generateRecurringInstances (Some u) tz now uuid parent r n))]"
  shows "instanceDate tz r (Date_parse (due_date parent)) k
           \<le> Date_local tz (getFullYear tz now + 1) (getMonth tz now) (getDate tz now)"
proof -
  let ?P = "\<lambda>k. instanceDate tz r (Date_parse (due_date parent)) k
                          \<le> Date_local tz (getFullYear tz now + 1) (getMonth tz now) (getDate tz now)"
  have l: "length (generateRecurringInstances (Some u) tz now uuid parent r n)
      = length (takeWhile ?P [1..int n])"
    by (simp add: generateRecurringInstances_map [OF assms(1)])
  from assms(2) have "k \<in> set (takeWhile ?P [1..int n])"
    unfolding l using takeWhile_upto [of ?P n] by simp
  then show ?thesis by (rule set_takeWhileD [THEN conjunct2])
qed





text \<open>
  Claim C2 says that each instance is exactly one rule-step after the previous one. A
  monthly parent due on 2023-01-31, expanded on that day with the policy cap of 12: the
  date of instance \<open>i\<close> is the base date with the month set to \<open>0 + i\<close> and the day kept at
  31, and a day beyond the end of a month overflows into the next month. No instance falls
  in February, April, June, September or November; the first two fall on 3 and 31 March,
  28 days apart.
\<close>

theorem monthly_expansion_month_end:
  "map due_date
     (generateRecurringInstances (Some ''user-1'') (fixed_offset 0) (Date_parse (ymd 2023 1 31)) example_uuid
        example_monthly_parent Monthly (getInstanceCount Monthly))
   = [ymd 2023 3 3, ymd 2023 3 31, ymd 2023 5 1, ymd 2023 5 31, ymd 2023 7 1, ymd 2023 7 31,
      ymd 2023 8 31, ymd 2023 10 1, ymd 2023 10 31, ymd 2023 12 1, ymd 2023 12 31,
      ymd 2024 1 31]"
proof -
  have p: "due_date example_monthly_parent = 19388"
    by (simp add: example_monthly_parent_def ymd_2023_01_31)
  have n: "int (getInstanceCount Monthly) = 12"
    by (simp add: getInstanceCount_def)
  have u: "[1..12::int] = [1,2,3,4,5,6,7,8,9,10,11,12]"
    by (simp add: upto.simps)
  have base: "Day (LocalTime (fixed_offset 0) (Date_parse 19388)) = 19388"
    "TimeWithinDay (LocalTime (fixed_offset 0) (Date_parse 19388)) = 0"
    by (simp_all add: Day_def TimeWithinDay_def LocalTime_fixed Date_parse_def MakeDate_def msPerDay_def)
  have inst: "instanceDate (fixed_offset 0) Monthly (Date_parse 19388) k = MakeDay 2023 k 31 * msPerDay" for k
    by (simp add: instanceDate_def setMonth_def getMonth_def Let_def base year_19388 month_19388 date_19388 UTC_fixed MakeDate_def)
  have horizon: "Date_local (fixed_offset 0) (getFullYear (fixed_offset 0) (Date_parse 19388) + 1) (getMonth (fixed_offset 0) (Date_parse 19388))
      (getDate (fixed_offset 0) (Date_parse 19388)) = MakeDay 2024 0 31 * msPerDay"
    by (simp add: Date_local_def getFullYear_def getMonth_def getDate_def base year_19388 month_19388 date_19388 UTC_fixed MakeDate_def)
  have iso: "toISODate (x * msPerDay) = x" for x
    by (simp add: toISODate_def Day_def msPerDay_def)
  show ?thesis
    unfolding generateRecurringInstances_due_dates [of Monthly, simplified] ymd_2023_01_31 p n u inst horizon iso
    by (simp add: msPerDay_def MakeDay_def DayFromYear_def month_start_def InLeapYear_def
        DaysInYear_def ymd_def)
qed

theorem monthly_expansion_month_end_witness:
  "recurrence example_monthly_parent = Monthly \<and>
   due_date example_monthly_parent = ymd 2023 1 31 \<and>
   take 2 (map due_date
     (generateRecurringInstances (Some ''user-1'') (fixed_offset 0) (Date_parse (ymd 2023 1 31)) example_uuid
        example_monthly_parent Monthly (getInstanceCount Monthly)))
     = [ymd 2023 3 3, ymd 2023 3 31] \<and>
   ymd 2023 3 31 - ymd 2023 3 3 = 28 \<and>
   YearFromDay (ymd 2023 3 3) = YearFromDay (ymd 2023 3 31) \<and>
   MonthFromDay (ymd 2023 3 3) = MonthFromDay (ymd 2023 3 31)"
  using monthly_expansion_month_end
  by (simp add: example_monthly_parent_def civil_march_2023)

section \<open>Completion-driven regeneration\<close>











text \<open>
  Two steps that are not one rule-step forward. The month after 2023-01-31 has no day 31,
  and the monthly step lands on 2023-03-03. Where the offset changes between the two local
  times, the daily step from 2024-03-10 is 23 hours long and stays on 2024-03-10.
\<close>

lemma nextDate_month_end:
  "toISODate (nextDate (fixed_offset 0) Monthly (Date_parse (ymd 2023 1 31))) = ymd 2023 3 3"
proof -
  have base: "Day (LocalTime (fixed_offset 0) (Date_parse 19388)) = 19388"
    "TimeWithinDay (LocalTime (fixed_offset 0) (Date_parse 19388)) = 0"
    by (simp_all add: Day_def TimeWithinDay_def LocalTime_fixed Date_parse_def MakeDate_def
        msPerDay_def)
  have "nextDate (fixed_offset 0) Monthly (Date_parse 19388) = MakeDay 2023 1 31 * msPerDay"
    by (simp add: nextDate_def setMonth_def getMonth_def Let_def base year_19388 month_19388
        date_19388 UTC_fixed MakeDate_def)
  then show ?thesis
    by (simp add: ymd_2023_01_31 civil_march_2023 toISODate_def Day_def)
       (simp add: MakeDay_def DayFromYear_def month_start_def InLeapYear_def DaysInYear_def
          msPerDay_def)
qed

lemma nextDate_daily_offset_change:
  "toISODate (nextDate example_dst_zone Daily (Date_parse (ymd 2024 3 10))) = ymd 2024 3 10"
proof -
  have d: "ymd 2024 3 10 = MakeDay 2024 2 10" "ymd 2024 3 10 = 19792"
    by (simp_all add: ymd_def MakeDay_def DayFromYear_def month_start_def InLeapYear_def
        DaysInYear_def)
  have lt: "LocalTime example_dst_zone (Date_parse 19792) = MakeDay 2024 2 9 * msPerDay + hhmm 19 0"
    by (simp add: LocalTime_def example_dst_zone_def d Date_parse_def MakeDate_def hhmm_def
        msPerDay_def Let_def MakeDay_def DayFromYear_def month_start_def InLeapYear_def
        DaysInYear_def)
  have day: "Day (MakeDay 2024 2 9 * msPerDay + hhmm 19 0) = MakeDay 2024 2 9"
    "TimeWithinDay (MakeDay 2024 2 9 * msPerDay + hhmm 19 0) = hhmm 19 0"
    by (simp_all add: Day_def TimeWithinDay_def hhmm_def msPerDay_def)
  note c = civil_inverse [of 2 9 2024, simplified]
  have "nextDate example_dst_zone Daily (Date_parse 19792)
      = MakeDate 19792 (hhmm 23 0)"
    unfolding nextDate_def recurrence.case setDate_def getDate_def Let_def lt day c
    by (simp add: UTC_def example_dst_zone_def Let_def d MakeDate_def hhmm_def msPerDay_def
        MakeDay_def DayFromYear_def month_start_def InLeapYear_def DaysInYear_def)
  then show ?thesis
    by (simp add: d(2) toISODate_def Day_def MakeDate_def hhmm_def msPerDay_def)
qed





end
